theory Spec2Isabelle
  imports Main "HOL-Library.Word"
begin

section \<open>The room relay (server.js)\<close>

text \<open>
  A connection is the \<open>ws\<close> object the WebSocket server hands to the
  \<open>'connection'\<close> callback; connections are compared by identity, so they are
  numbered.  A \<open>Group\<close> object lives on the heap and is referred to from the
  \<open>groups\<close> map and from the \<open>userGroup\<close> variable of every connection's
  closure, so group objects are addressed by reference as well.

  The values that travel in JSON fields (\<open>groupId\<close>, \<open>content\<close>, \<open>data\<close>,
  \<open>callType\<close>, the uuid strings) are never inspected by the relay; they are the
  type parameter \<open>'v\<close>.
\<close>

type_synonym conn = nat
type_synonym gref = nat

text \<open>
  \<open>class Group\<close>: \<open>members\<close> is a JavaScript \<open>Set\<close>, which iterates in insertion
  order and holds no element twice; it is the list of its elements in that order.
\<close>

record 'v group =
  group_id :: 'v
  members :: "conn list"

text \<open>What the server writes to a socket (the argument of \<open>JSON.stringify\<close>).\<close>

datatype 'v server_msg =
    Error string
  | GroupCreated 'v
  | JoinedGroup 'v
  | LeftGroup 'v
  | ChatMessageOut 'v 'v int
  | CallAllowed 'v
  | EncryptedSignalingOut 'v

text \<open>
  The parsed inbound message, by its \<open>type\<close> field; \<open>Unknown\<close> is every other
  value of \<open>message.type\<close> (the \<open>default\<close> branch).
\<close>

datatype 'v client_msg =
    CreateGroup
  | JoinGroup 'v
  | LeaveGroup
  | ChatMessage 'v
  | StartCall 'v
  | EncryptedSignaling 'v
  | Unknown

text \<open>
  What a handler reads from outside the relay's own state while it runs: the
  result of the next \<open>uuidv4()\<close> call, \<open>Date.now()\<close>, the \<open>userId\<close> drawn when
  a connection was accepted (a closure constant), and the \<open>readyState\<close> of
  every socket (\<open>1\<close> is \<open>OPEN\<close>).
\<close>

record 'v world =
  uuidv4 :: 'v
  now :: int
  userId :: "conn \<Rightarrow> 'v"
  readyState :: "conn \<Rightarrow> nat"

text \<open>
  The relay's state: the module-level \<open>groups\<close> map (group id to Group
  object), the Group objects themselves, the next unused object address, and
  the \<open>userGroup\<close> variable of each connection's closure (\<open>None\<close> is \<open>null\<close>).
\<close>

record 'v relay =
  groups :: "'v \<rightharpoonup> gref"
  heap :: "gref \<rightharpoonup> 'v group"
  fresh :: gref
  userGroup :: "conn \<rightharpoonup> gref"

type_synonym 'v sends = "(conn \<times> 'v server_msg) list"

definition add :: "conn \<Rightarrow> 'v group \<Rightarrow> 'v group" where
  "add ws g = g\<lparr>members := (if ws \<in> set (members g) then members g else members g @ [ws])\<rparr>"

definition remove :: "conn \<Rightarrow> 'v group \<Rightarrow> 'v group" where
  "remove ws g = g\<lparr>members := removeAll ws (members g)\<rparr>"

text \<open>
  \<open>Group.broadcast(message, exceptWs)\<close>: one \<open>send\<close> for every member that is
  not \<open>exceptWs\<close> and whose \<open>readyState\<close> is \<open>1\<close>, in iteration order.
\<close>

definition broadcast :: "'v world \<Rightarrow> 'v group \<Rightarrow> 'v server_msg \<Rightarrow> conn option \<Rightarrow> 'v sends" where
  "broadcast w g message exceptWs =
     map (\<lambda>member. (member, message))
       (filter (\<lambda>member. Some member \<noteq> exceptWs \<and> readyState w member = 1) (members g))"

text \<open>\<open>new Group(id)\<close>: a fresh object with an empty member set.\<close>

definition new_Group :: "'v \<Rightarrow> 'v relay \<Rightarrow> gref \<times> 'v relay" where
  "new_Group i s =
     (fresh s, s\<lparr>heap := (heap s)(fresh s \<mapsto> \<lparr>group_id = i, members = []\<rparr>), fresh := Suc (fresh s)\<rparr>)"

text \<open>A method call on the object behind a reference.\<close>

definition on_group :: "gref \<Rightarrow> ('v group \<Rightarrow> 'v group) \<Rightarrow> 'v relay \<Rightarrow> 'v relay" where
  "on_group r f s = s\<lparr>heap := (heap s)(r := map_option f (heap s r))\<rparr>"

text \<open>
  The \<open>switch (message.type)\<close> of the \<open>'message'\<close> handler of connection \<open>ws\<close>.
  The result is the new state and the frames sent, in order.
\<close>

fun handle_message :: "'v world \<Rightarrow> conn \<Rightarrow> 'v client_msg \<Rightarrow> 'v relay \<Rightarrow> 'v relay \<times> 'v sends" where
  "handle_message w ws CreateGroup s =
     (let groupId = uuidv4 w;
          (grp, s1) = new_Group groupId s;
          s2 = s1\<lparr>groups := (groups s1)(groupId \<mapsto> grp)\<rparr>;
          s3 = on_group grp (add ws) s2;
          s4 = s3\<lparr>userGroup := (userGroup s3)(ws \<mapsto> grp)\<rparr>
      in (s4, [(ws, GroupCreated groupId)]))"
| "handle_message w ws (JoinGroup groupId) s =
     (let s1 = (if groups s groupId = None
                then (let (grp, s') = new_Group groupId s
                      in s'\<lparr>groups := (groups s')(groupId \<mapsto> grp)\<rparr>)
                else s);
          s2 = s1\<lparr>userGroup := (userGroup s1)(ws := groups s1 groupId)\<rparr>;
          s3 = (case userGroup s2 ws of None \<Rightarrow> s2 | Some grp \<Rightarrow> on_group grp (add ws) s2)
      in (s3, [(ws, JoinedGroup groupId)]))"
| "handle_message w ws LeaveGroup s =
     (case userGroup s ws of
        None \<Rightarrow> (s, [])
      | Some grp \<Rightarrow>
          (let s1 = on_group grp (remove ws) s;
               out = (case heap s1 grp of None \<Rightarrow> [] | Some g \<Rightarrow> [(ws, LeftGroup (group_id g))]);
               s2 = s1\<lparr>userGroup := (userGroup s1)(ws := None)\<rparr>
           in (s2, out)))"
| "handle_message w ws (ChatMessage content) s =
     (case userGroup s ws of
        None \<Rightarrow> (s, [(ws, Error ''Not in a group'')])
      | Some grp \<Rightarrow>
          (s, case heap s grp of
                None \<Rightarrow> []
              | Some g \<Rightarrow> broadcast w g (ChatMessageOut content (userId w ws) (now w)) (Some ws)))"
| "handle_message w ws (StartCall callType) s =
     (case userGroup s ws of
        None \<Rightarrow> (s, [(ws, Error ''Not in a group'')])
      | Some grp \<Rightarrow> (s, [(ws, CallAllowed callType)]))"
| "handle_message w ws (EncryptedSignaling d) s =
     (case userGroup s ws of
        None \<Rightarrow> (s, [])
      | Some grp \<Rightarrow>
          (s, case heap s grp of
                None \<Rightarrow> []
              | Some g \<Rightarrow> broadcast w g (EncryptedSignalingOut d) (Some ws)))"
| "handle_message w ws Unknown s = (s, [(ws, Error ''Unknown message type'')])"

text \<open>The \<open>'close'\<close> handler of connection \<open>ws\<close>.\<close>

definition on_close :: "conn \<Rightarrow> 'v relay \<Rightarrow> 'v relay" where
  "on_close ws s = (case userGroup s ws of None \<Rightarrow> s | Some grp \<Rightarrow> on_group grp (remove ws) s)"

text \<open>
  The body of \<open>ws.on('message', ...)\<close>.  \<open>JSON.parse\<close> either throws (the
  handler answers \<open>Invalid JSON\<close> and returns) or yields a value; on the value
  \<open>null\<close> the property access \<open>message.type\<close> raises a \<open>TypeError\<close>, every
  other value is dispatched by the switch.  \<open>js_error\<close> lists the exceptions
  that occur in the code modelled here (\<open>InvalidCharacterError\<close> is raised by
  \<open>atob\<close> and \<open>btoa\<close>, \<open>OperationError\<close> by \<open>crypto.subtle\<close>, \<open>RangeError\<close> by a call with
  more arguments than the engine accepts, \<open>NotAllowedError\<close> by
  \<open>getUserMedia\<close>, \<open>InvalidStateError\<close> by a peer connection).
\<close>

datatype js_error =
  TypeError | InvalidCharacterError | OperationError | RangeError | NotAllowedError | InvalidStateError

datatype 'v inbound = BadJSON | JsonNull | Parsed "'v client_msg"

fun on_message :: "'v world \<Rightarrow> conn \<Rightarrow> 'v inbound \<Rightarrow> 'v relay \<Rightarrow> js_error + 'v relay \<times> 'v sends" where
  "on_message w ws BadJSON s = Inr (s, [(ws, Error ''Invalid JSON'')])"
| "on_message w ws JsonNull s = Inl TypeError"
| "on_message w ws (Parsed message) s = Inr (handle_message w ws message s)"

text \<open>
  The relay as a transition system: the module starts with an empty \<open>groups\<close>
  map and every connection starts with \<open>userGroup = null\<close>; each event is
  handled to completion, in the world it finds.
\<close>

datatype 'v event = Message conn "'v inbound" | Close conn

fun step :: "'v world \<Rightarrow> 'v event \<Rightarrow> 'v relay \<Rightarrow> js_error + 'v relay \<times> 'v sends" where
  "step w (Message ws d) s = on_message w ws d s"
| "step w (Close ws) s = Inr (on_close ws s, [])"

fun run :: "('v world \<times> 'v event) list \<Rightarrow> 'v relay \<Rightarrow> js_error + 'v relay" where
  "run [] s = Inr s"
| "run ((w, e) # es) s = (case step w e s of Inl err \<Rightarrow> Inl err | Inr (s', out) \<Rightarrow> run es s')"

definition init :: "'v relay" where
  "init = \<lparr>groups = Map.empty, heap = Map.empty, fresh = 0, userGroup = Map.empty\<rparr>"

text \<open>
  Every reference held by the \<open>groups\<close> map or by a connection points to an
  allocated Group object, and the allocated objects are those below \<open>fresh\<close>.
\<close>

definition valid_refs :: "'v relay \<Rightarrow> bool" where
  "valid_refs s \<longleftrightarrow>
     (\<forall>r. heap s r \<noteq> None \<longleftrightarrow> r < fresh s) \<and>
     (\<forall>k r. groups s k = Some r \<longrightarrow> r < fresh s) \<and>
     (\<forall>c r. userGroup s c = Some r \<longrightarrow> r < fresh s)"

text \<open>The member set of the room the \<open>groups\<close> map holds under an id, if any.\<close>

definition room_members :: "'v relay \<Rightarrow> 'v \<Rightarrow> conn list option" where
  "room_members s k = (case groups s k of None \<Rightarrow> None | Some r \<Rightarrow> map_option members (heap s r))"

text \<open>A world for running examples: every socket is open.\<close>

definition all_open :: "string world" where
  "all_open = \<lparr>uuidv4 = ''room-1'', now = 0, userId = (\<lambda>c. ''user''), readyState = (\<lambda>c. 1)\<rparr>"

text \<open>
  States for running examples: a room \<open>g\<close> with four members, of which
  connection \<open>3\<close> has a closed socket in the world \<open>three_closed\<close>; and a room
  with the single member \<open>0\<close>, as \<open>create_group\<close> leaves it.
\<close>

definition lobby :: "string relay" where
  "lobby = \<lparr>groups = [''g'' \<mapsto> 0], heap = [0 \<mapsto> \<lparr>group_id = ''g'', members = [1, 2, 3, 4]\<rparr>], fresh = 1,
            userGroup = [1 \<mapsto> 0, 2 \<mapsto> 0, 3 \<mapsto> 0, 4 \<mapsto> 0]\<rparr>"

definition three_closed :: "string world" where
  "three_closed = all_open\<lparr>readyState := (\<lambda>c. if c = 3 then 3 else 1)\<rparr>"

definition solo :: "string relay" where
  "solo = \<lparr>groups = [''room-1'' \<mapsto> 0], heap = [0 \<mapsto> \<lparr>group_id = ''room-1'', members = [0]\<rparr>], fresh = 1,
           userGroup = [0 \<mapsto> 0]\<rparr>"

section \<open>The symmetric channel (client/features/crypto.js)\<close>

text \<open>
  A JavaScript string is a sequence of 16-bit code units; a \<open>Uint8Array\<close> is a
  sequence of bytes.  Of the resource limits of the engine, the model has the
  one the code can run into with a long message: the number of arguments a
  call accepts, which the spread call \<open>String.fromCharCode(...combined)\<close>
  exceeds when \<open>combined\<close> is too long.  Memory is not part of the model.
\<close>

type_synonym byte = "8 word"
type_synonym jsstring = "16 word list"

text \<open>A string literal of ASCII characters as a JavaScript string.\<close>

definition js :: "string \<Rightarrow> jsstring" where
  "js s = map (\<lambda>c. of_nat (of_char c)) s"

subsection \<open>Platform functions: \<open>btoa\<close> and \<open>atob\<close>\<close>

text \<open>
  The browser's \<open>btoa\<close> and \<open>atob\<close>, after the HTML standard and the
  forgiving-base64 algorithms of the Infra standard.  Sextets and octets are
  natural numbers; \<open>61\<close> is the code unit of the padding character \<open>=\<close>.
\<close>

definition b64_char :: "nat \<Rightarrow> 16 word" where
  "b64_char n = of_nat (if n < 26 then 65 + n else if n < 52 then 71 + n
                        else if n < 62 then n - 4 else if n = 62 then 43 else 47)"

definition b64_index :: "16 word \<Rightarrow> nat option" where
  "b64_index u =
     (let c = unat u in
      if 65 \<le> c \<and> c \<le> 90 then Some (c - 65)
      else if 97 \<le> c \<and> c \<le> 122 then Some (c - 71)
      else if 48 \<le> c \<and> c \<le> 57 then Some (c + 4)
      else if c = 43 then Some 62
      else if c = 47 then Some 63
      else None)"

fun b64_sextets :: "nat list \<Rightarrow> nat list" where
  "b64_sextets (a # b # c # rest) =
     [a div 4, (a mod 4) * 16 + b div 16, (b mod 16) * 4 + c div 64, c mod 64] @ b64_sextets rest"
| "b64_sextets [a, b] = [a div 4, (a mod 4) * 16 + b div 16, (b mod 16) * 4]"
| "b64_sextets [a] = [a div 4, (a mod 4) * 16]"
| "b64_sextets [] = []"

fun b64_octets :: "nat list \<Rightarrow> nat list" where
  "b64_octets (p # q # r # s # rest) =
     [p * 4 + q div 16, (q mod 16) * 16 + r div 4, (r mod 4) * 64 + s] @ b64_octets rest"
| "b64_octets [p, q, r] = [p * 4 + q div 16, (q mod 16) * 16 + r div 4]"
| "b64_octets [p, q] = [p * 4 + q div 16]"
| "b64_octets [p] = []"
| "b64_octets [] = []"

text \<open>\<open>btoa\<close> raises on a code unit above \<open>0xFF\<close>.\<close>

definition btoa :: "jsstring \<Rightarrow> js_error + jsstring" where
  "btoa s =
     (if \<exists>u \<in> set s. 255 < unat u then Inl InvalidCharacterError
      else Inr (map b64_char (b64_sextets (map unat s)) @ replicate ((3 - length s mod 3) mod 3) 61))"

definition ascii_whitespace :: "16 word \<Rightarrow> bool" where
  "ascii_whitespace u \<longleftrightarrow> u = 9 \<or> u = 10 \<or> u = 12 \<or> u = 13 \<or> u = 32"

definition strip_padding :: "jsstring \<Rightarrow> jsstring" where
  "strip_padding d =
     (if length d mod 4 = 0
      then (case rev d of
              a # b # r \<Rightarrow> if a = 61 \<and> b = 61 then rev r else if a = 61 then rev (b # r) else d
            | _ \<Rightarrow> d)
      else d)"

text \<open>
  \<open>atob\<close>: drop ASCII whitespace; if the length is a multiple of four, drop one
  or two trailing \<open>=\<close>; fail on a length of \<open>1\<close> modulo \<open>4\<close> or on a code unit
  outside the alphabet; decode, discarding the bits of an incomplete octet.
\<close>

definition atob :: "jsstring \<Rightarrow> js_error + jsstring" where
  "atob s =
     (let d = strip_padding (filter (\<lambda>u. \<not> ascii_whitespace u) s) in
      if length d mod 4 = 1 then Inl InvalidCharacterError
      else (case those (map b64_index d) of
              None \<Rightarrow> Inl InvalidCharacterError
            | Some sx \<Rightarrow> Inr (map of_nat (b64_octets sx))))"

text \<open>
  \<open>String.fromCharCode\<close> applied to the bytes of an array, one code unit for
  each, and \<open>new Uint8Array(str.split('').map(char => char.charCodeAt(0)))\<close>;
  the typed array keeps the low eight bits of each number.
\<close>

definition fromCharCode :: "byte list \<Rightarrow> jsstring" where
  "fromCharCode bs = map (\<lambda>b. of_nat (unat b)) bs"

text \<open>
  The spread call \<open>String.fromCharCode(...combined)\<close> passes every byte as an
  argument of its own.  An engine accepts only so many arguments in one call
  (\<open>limit\<close>, which depends on the engine and its stack); beyond that the call
  raises a \<open>RangeError\<close>.
\<close>

definition spread_fromCharCode :: "nat \<Rightarrow> byte list \<Rightarrow> js_error + jsstring" where
  "spread_fromCharCode limit combined =
     (if limit < length combined then Inl RangeError else Inr (fromCharCode combined))"

definition charCodes :: "jsstring \<Rightarrow> byte list" where
  "charCodes s = map (\<lambda>u. of_nat (unat u)) s"

subsection \<open>Platform functions: \<open>TextEncoder\<close> and \<open>TextDecoder\<close>\<close>

text \<open>
  \<open>new TextEncoder().encode(s)\<close>, after the Encoding standard: the string is
  first converted to scalar values, where a surrogate code unit that is not
  part of a pair becomes U+FFFD, then each scalar value is written in UTF-8.
\<close>

fun scalar_values :: "nat list \<Rightarrow> nat list" where
  "scalar_values [] = []"
| "scalar_values [c] = (if c < 0xD800 \<or> 0xDFFF < c then [c] else [0xFFFD])"
| "scalar_values (c # d # ds) =
     (if c < 0xD800 \<or> 0xDFFF < c then c # scalar_values (d # ds)
      else if 0xDC00 \<le> c then 0xFFFD # scalar_values (d # ds)
      else if 0xDC00 \<le> d \<and> d \<le> 0xDFFF
      then (0x10000 + (c - 0xD800) * 0x400 + (d - 0xDC00)) # scalar_values ds
      else 0xFFFD # scalar_values (d # ds))"

definition utf8_bytes :: "nat \<Rightarrow> nat list" where
  "utf8_bytes c =
     (if c < 0x80 then [c]
      else if c < 0x800 then [0xC0 + c div 0x40, 0x80 + c mod 0x40]
      else if c < 0x10000 then [0xE0 + c div 0x1000, 0x80 + (c div 0x40) mod 0x40, 0x80 + c mod 0x40]
      else [0xF0 + c div 0x40000, 0x80 + (c div 0x1000) mod 0x40,
            0x80 + (c div 0x40) mod 0x40, 0x80 + c mod 0x40])"

definition TextEncoder_encode :: "jsstring \<Rightarrow> byte list" where
  "TextEncoder_encode s = map of_nat (concat (map utf8_bytes (scalar_values (map unat s))))"

text \<open>
  \<open>new TextDecoder().decode(bytes)\<close> (UTF-8, not fatal, BOM not ignored): a
  leading byte order mark is dropped, then the UTF-8 decoder of the Encoding
  standard runs: its state is the code point under construction, the number
  of continuation bytes needed and seen, and the bounds of the next
  continuation byte; every error yields U+FFFD, and a byte that cannot
  continue a sequence is read again as the start of the next.  The scalar
  values are written back as code units, a surrogate pair above U+FFFF.
\<close>

function utf8_decode :: "nat \<Rightarrow> nat \<Rightarrow> nat \<Rightarrow> nat \<Rightarrow> nat \<Rightarrow> nat list \<Rightarrow> nat list" where
  "utf8_decode cp needed seen lower upper [] = (if needed \<noteq> 0 then [0xFFFD] else [])"
| "utf8_decode cp needed seen lower upper (b # bs) =
     (if needed = 0 then
        (if b \<le> 0x7F then b # utf8_decode 0 0 0 0x80 0xBF bs
         else if 0xC2 \<le> b \<and> b \<le> 0xDF then utf8_decode (b mod 0x20) 1 0 0x80 0xBF bs
         else if 0xE0 \<le> b \<and> b \<le> 0xEF then
           utf8_decode (b mod 0x10) 2 0 (if b = 0xE0 then 0xA0 else 0x80) (if b = 0xED then 0x9F else 0xBF) bs
         else if 0xF0 \<le> b \<and> b \<le> 0xF4 then
           utf8_decode (b mod 0x08) 3 0 (if b = 0xF0 then 0x90 else 0x80) (if b = 0xF4 then 0x8F else 0xBF) bs
         else 0xFFFD # utf8_decode 0 0 0 0x80 0xBF bs)
      else if b < lower \<or> upper < b then 0xFFFD # utf8_decode 0 0 0 0x80 0xBF (b # bs)
      else if Suc seen \<noteq> needed then
        utf8_decode (cp * 0x40 + b mod 0x40) needed (Suc seen) 0x80 0xBF bs
      else (cp * 0x40 + b mod 0x40) # utf8_decode 0 0 0 0x80 0xBF bs)"
  by pat_completeness auto
termination
  by (relation "measure (\<lambda>(cp, needed, seen, lower, upper, bs). 2 * length bs + (if needed = 0 then 0 else 1))")
     auto

definition skip_bom :: "nat list \<Rightarrow> nat list" where
  "skip_bom bs = (if take 3 bs = [0xEF, 0xBB, 0xBF] then drop 3 bs else bs)"

definition code_units :: "nat \<Rightarrow> nat list" where
  "code_units c =
     (if c < 0x10000 then [c]
      else [0xD800 + (c - 0x10000) div 0x400, 0xDC00 + (c - 0x10000) mod 0x400])"

definition TextDecoder_decode :: "byte list \<Rightarrow> jsstring" where
  "TextDecoder_decode bs =
     map of_nat (concat (map code_units (utf8_decode 0 0 0 0x80 0xBF (skip_bom (map unat bs)))))"

subsection \<open>The crypto provider and the engine\<close>

text \<open>
  \<open>window.crypto.subtle\<close> with the algorithm \<open>{name: "AES-GCM", iv}\<close> is not part
  of the repository; it is a parameter.  \<open>subtle_encrypt key iv data\<close> and
  \<open>subtle_decrypt key iv data\<close> are the values the returned promises resolve
  to, \<open>None\<close> when the promise is rejected (for \<open>decrypt\<close>: the authentication
  tag does not match, or the input is too short to hold one).
  \<open>max_arguments\<close> is the number of arguments the engine accepts in one call.
\<close>

record 'k platform =
  subtle_encrypt :: "'k \<Rightarrow> byte list \<Rightarrow> byte list \<Rightarrow> byte list option"
  subtle_decrypt :: "'k \<Rightarrow> byte list \<Rightarrow> byte list \<Rightarrow> byte list option"
  max_arguments :: nat

subsection \<open>\<open>CryptoManager\<close>\<close>

text \<open>
  \<open>sharedKey\<close> is \<open>null\<close> (\<open>None\<close>) from the constructor until \<open>initializeKeys\<close>
  has generated it, and for ever if key generation fails.  The \<open>keyPair\<close>
  field is written by \<open>initializeKeys\<close> and read nowhere.
\<close>

record 'k crypto_manager =
  sharedKey :: "'k option"

definition CryptoManager :: "'k crypto_manager" where
  "CryptoManager = \<lparr>sharedKey = None\<rparr>"

text \<open>
  \<open>initializeKeys\<close>, given what the two \<open>generateKey\<close> calls produce (\<open>None\<close>: the
  call throws, which the \<open>catch\<close> logs): the symmetric key is stored only if
  both succeed.
\<close>

definition initializeKeys :: "bool \<Rightarrow> 'k option \<Rightarrow> 'k crypto_manager \<Rightarrow> 'k crypto_manager" where
  "initializeKeys keyPair_ok generated cm =
     (if keyPair_ok then (case generated of None \<Rightarrow> cm | Some k \<Rightarrow> cm\<lparr>sharedKey := Some k\<rparr>) else cm)"

text \<open>
  The \<open>try\<close> block of \<open>encryptMessage\<close>; \<open>iv\<close> is the array that
  \<open>crypto.getRandomValues(new Uint8Array(12))\<close> returns.
\<close>

definition encryptMessage_try :: "'k platform \<Rightarrow> 'k \<Rightarrow> byte list \<Rightarrow> jsstring \<Rightarrow> js_error + jsstring" where
  "encryptMessage_try sub key iv message =
     (let data = TextEncoder_encode message in
      case subtle_encrypt sub key iv data of
        None \<Rightarrow> Inl OperationError
      | Some encryptedData \<Rightarrow>
          (let combined = iv @ encryptedData
           in case spread_fromCharCode (max_arguments sub) combined of
                Inl error \<Rightarrow> Inl error
              | Inr binary \<Rightarrow> btoa binary))"

definition encryptMessage :: "'k platform \<Rightarrow> 'k crypto_manager \<Rightarrow> byte list \<Rightarrow> jsstring \<Rightarrow> jsstring" where
  "encryptMessage sub cm iv message =
     (case sharedKey cm of
        None \<Rightarrow> message
      | Some key \<Rightarrow>
          (case encryptMessage_try sub key iv message of
             Inl error \<Rightarrow> message
           | Inr transport \<Rightarrow> transport))"

text \<open>The \<open>try\<close> block of \<open>decryptMessage\<close>.\<close>

definition decryptMessage_try :: "'k platform \<Rightarrow> 'k \<Rightarrow> jsstring \<Rightarrow> js_error + jsstring" where
  "decryptMessage_try sub key encryptedMessage =
     (case atob encryptedMessage of
        Inl error \<Rightarrow> Inl error
      | Inr binary \<Rightarrow>
          (let combined = charCodes binary;
               iv = take 12 combined;
               encryptedData = drop 12 combined
           in case subtle_decrypt sub key iv encryptedData of
                None \<Rightarrow> Inl OperationError
              | Some decryptedData \<Rightarrow> Inr (TextDecoder_decode decryptedData)))"

definition decryptMessage :: "'k platform \<Rightarrow> 'k crypto_manager \<Rightarrow> jsstring \<Rightarrow> jsstring" where
  "decryptMessage sub cm encryptedMessage =
     (case sharedKey cm of
        None \<Rightarrow> encryptedMessage
      | Some key \<Rightarrow>
          (case decryptMessage_try sub key encryptedMessage of
             Inl error \<Rightarrow> encryptedMessage
           | Inr text \<Rightarrow> text))"

text \<open>
  A stand-in for the crypto provider, to run examples: the data is masked
  with the key byte and followed by a 16-byte tag over key, nonce and data.
  It is not AES-GCM; it only has the provider's shape (\<open>decrypt\<close> inverts
  \<open>encrypt\<close> and rejects what fails the tag).  Its engine accepts 65535
  arguments in a call.
\<close>

definition standin_tag :: "byte \<Rightarrow> byte list \<Rightarrow> byte list \<Rightarrow> byte list" where
  "standin_tag key iv data =
     (let t = fold (+) (iv @ data) key in [t, t, t, t, t, t, t, t, t, t, t, t, t, t, t, t])"

definition standin :: "byte platform" where
  "standin =
     \<lparr>subtle_encrypt = (\<lambda>key iv data. Some (map (\<lambda>b. xor b key) data @ standin_tag key iv data)),
      subtle_decrypt = (\<lambda>key iv sealed.
         if length sealed < 16 then None
         else (let body = take (length sealed - 16) sealed;
                   data = map (\<lambda>b. xor b key) body
               in if drop (length sealed - 16) sealed = standin_tag key iv data then Some data else None)),
      max_arguments = 65535\<rparr>"

text \<open>A nonce of twelve bytes for the examples.\<close>

definition nonce12 :: "byte list" where
  "nonce12 = [1, 2, 3, 4, 5, 6, 7, 8, 9, 10, 11, 12]"

text \<open>
  A string is well formed when every surrogate code unit is part of a pair,
  lead before trail.
\<close>

fun well_formed :: "nat list \<Rightarrow> bool" where
  "well_formed [] = True"
| "well_formed [c] = (c < 0xD800 \<or> 0xDFFF < c)"
| "well_formed (c # d # ds) =
     (if c < 0xD800 \<or> 0xDFFF < c then well_formed (d # ds)
      else c < 0xDC00 \<and> 0xDC00 \<le> d \<and> d \<le> 0xDFFF \<and> well_formed ds)"

text \<open>A Unicode scalar value: a code point that is not a surrogate.\<close>

definition is_scalar :: "nat \<Rightarrow> bool" where
  "is_scalar c \<longleftrightarrow> c < 0x110000 \<and> \<not> (0xD800 \<le> c \<and> c \<le> 0xDFFF)"

text \<open>The strings that survive \<open>TextEncoder\<close> and \<open>TextDecoder\<close>: well formed, and not starting with U+FEFF.\<close>

definition text_safe :: "jsstring \<Rightarrow> bool" where
  "text_safe s \<longleftrightarrow> well_formed (map unat s) \<and> take 1 s \<noteq> [0xFEFF]"

text \<open>A single-bit corruption of a string: bit \<open>j\<close> of code unit \<open>i\<close> is inverted.\<close>

definition flip_bit :: "nat \<Rightarrow> nat \<Rightarrow> jsstring \<Rightarrow> jsstring" where
  "flip_bit i j s = (if i < length s then s[i := xor (s ! i) (push_bit j 1)] else s)"

section \<open>The session negotiator (client/features/voice.js)\<close>

text \<open>
  The objects the browser owns are kept in one record and addressed by number:
  media tracks, data channels, peer connections, interval timers and sockets.
  \<open>document.getElementById\<close> yields an element or \<open>null\<close>, so each element the
  code looks up is an option: for a video element its \<open>srcObject\<close>, for a text
  element its \<open>textContent\<close>.  A \<open>MediaStream\<close> is the list of its tracks;
  \<open>window_gc\<close> is the function \<open>window.gc\<close> where the engine exposes one.
\<close>

record track =
  ended :: bool
  enabled :: bool

type_synonym media_stream = "nat list"

record browser =
  tracks :: "nat \<Rightarrow> track"
  channel_closed :: "nat \<Rightarrow> bool"
  connection_closed :: "nat \<Rightarrow> bool"
  interval_active :: "nat \<Rightarrow> bool"
  socket_readyState :: "nat \<Rightarrow> nat"
  localVideo :: "media_stream option option"
  remoteVideo :: "media_stream option option"
  callTimer_element :: "string option"
  callStatus_element :: "string option"
  messageInput_value :: jsstring
  window_gc :: "unit option"
  error_timeouts :: nat

text \<open>
  An \<open>RTCPeerConnection\<close> created by \<open>startCall\<close> or \<open>handleOffer\<close>.  Its
  \<open>onicecandidate\<close> handler is a closure over the parameter \<open>ws\<close> of the
  function that created it; \<open>None\<close> is a \<open>null\<close> or \<open>undefined\<close> argument.
\<close>

record peer_connection =
  connection :: nat
  onicecandidate_ws :: "nat option"

text \<open>
  The fields of \<open>VoiceManager\<close>.  A field that holds \<open>null\<close> or \<open>undefined\<close> is
  \<open>None\<close>.  \<open>signalingData\<close> is a \<open>Map\<close> that the class only creates and
  clears.
\<close>

record 'k voice_manager =
  localStream :: "media_stream option"
  remoteStream :: "media_stream option"
  peerConnection :: "peer_connection option"
  dataChannel :: "nat option"
  isCallActive :: bool
  isMuted :: bool
  isCameraOff :: bool
  callStartTime :: "int option"
  callTimer :: "nat option"
  encryptionKey :: "'k option"
  isInitiator :: bool
  signalingData :: "(jsstring \<times> jsstring) list"

text \<open>The constructor, before \<open>initializeEncryption\<close> has produced the key.\<close>

definition VoiceManager :: "'k voice_manager" where
  "VoiceManager =
     \<lparr>localStream = None, remoteStream = None, peerConnection = None, dataChannel = None,
      isCallActive = False, isMuted = False, isCameraOff = False, callStartTime = None,
      callTimer = None, encryptionKey = None, isInitiator = False, signalingData = []\<rparr>"

text \<open>
  Reading a property or calling a method of \<open>null\<close> or \<open>undefined\<close> raises a
  \<open>TypeError\<close>; \<open>deref\<close> is every \<open>x.f\<close> of the source, and \<open>and_then\<close> runs the
  next statement unless the previous one raised.
\<close>

definition deref :: "'a option \<Rightarrow> js_error + 'a" where
  "deref x = (case x of None \<Rightarrow> Inl TypeError | Some a \<Rightarrow> Inr a)"

definition and_then :: "js_error + 'a \<Rightarrow> ('a \<Rightarrow> js_error + 'b) \<Rightarrow> js_error + 'b" where
  "and_then m f = (case m of Inl e \<Rightarrow> Inl e | Inr a \<Rightarrow> f a)"

type_synonym 'k page = "browser \<times> 'k voice_manager"

text \<open>\<open>track.stop()\<close> for every track of a stream, and \<open>track.enabled = false\<close> where the source sets it.\<close>

definition stop_tracks :: "bool \<Rightarrow> media_stream \<Rightarrow> browser \<Rightarrow> browser" where
  "stop_tracks disable stream b =
     b\<lparr>tracks := fold (\<lambda>i t. t(i := (t i)\<lparr>ended := True, enabled := (if disable then False else enabled (t i))\<rparr>))
                     stream (tracks b)\<rparr>"

text \<open>
  The statements of \<open>endCall\<close>, one definition each, in the order of the source:
  the four guarded releases, the two assignments, \<open>stopCallTimer\<close>, the reset of
  the two video elements, and the optional \<open>window.gc()\<close>.
\<close>

definition release_localStream :: "'k page \<Rightarrow> js_error + 'k page" where
  "release_localStream p =
     (let (b, vm) = p in
      if localStream vm \<noteq> None
      then and_then (deref (localStream vm))
             (\<lambda>stream. Inr (stop_tracks True stream b, vm\<lparr>localStream := None\<rparr>))
      else Inr (b, vm))"

definition release_remoteStream :: "'k page \<Rightarrow> js_error + 'k page" where
  "release_remoteStream p =
     (let (b, vm) = p in
      if remoteStream vm \<noteq> None
      then and_then (deref (remoteStream vm))
             (\<lambda>stream. Inr (stop_tracks False stream b, vm\<lparr>remoteStream := None\<rparr>))
      else Inr (b, vm))"

definition close_dataChannel :: "'k page \<Rightarrow> js_error + 'k page" where
  "close_dataChannel p =
     (let (b, vm) = p in
      if dataChannel vm \<noteq> None
      then and_then (deref (dataChannel vm))
             (\<lambda>ch. Inr (b\<lparr>channel_closed := (channel_closed b)(ch := True)\<rparr>, vm\<lparr>dataChannel := None\<rparr>))
      else Inr (b, vm))"

definition close_peerConnection :: "'k page \<Rightarrow> js_error + 'k page" where
  "close_peerConnection p =
     (let (b, vm) = p in
      if peerConnection vm \<noteq> None
      then and_then (deref (peerConnection vm))
             (\<lambda>pc. Inr (b\<lparr>connection_closed := (connection_closed b)(connection pc := True)\<rparr>,
                          vm\<lparr>peerConnection := None\<rparr>))
      else Inr (b, vm))"

definition clear_call_state :: "'k page \<Rightarrow> js_error + 'k page" where
  "clear_call_state p = (let (b, vm) = p in Inr (b, vm\<lparr>signalingData := [], isCallActive := False\<rparr>))"

definition stopCallTimer :: "'k page \<Rightarrow> js_error + 'k page" where
  "stopCallTimer p =
     (let (b, vm) = p in
      and_then
        (if callTimer vm \<noteq> None
         then and_then (deref (callTimer vm))
                (\<lambda>t. Inr (b\<lparr>interval_active := (interval_active b)(t := False)\<rparr>, vm\<lparr>callTimer := None\<rparr>))
         else Inr (b, vm))
        (\<lambda>(b, vm).
           (let timerElement = callTimer_element b in
            if timerElement \<noteq> None
            then and_then (deref timerElement) (\<lambda>el. Inr (b\<lparr>callTimer_element := Some ''00:00''\<rparr>, vm))
            else Inr (b, vm))))"

definition reset_videos :: "'k page \<Rightarrow> js_error + 'k page" where
  "reset_videos p =
     (let (b, vm) = p in
      and_then
        (if localVideo b \<noteq> None
         then and_then (deref (localVideo b)) (\<lambda>el. Inr (b\<lparr>localVideo := Some None\<rparr>, vm))
         else Inr (b, vm))
        (\<lambda>(b, vm).
           if remoteVideo b \<noteq> None
           then and_then (deref (remoteVideo b)) (\<lambda>el. Inr (b\<lparr>remoteVideo := Some None\<rparr>, vm))
           else Inr (b, vm)))"

definition force_gc :: "'k page \<Rightarrow> js_error + 'k page" where
  "force_gc p =
     (let (b, vm) = p in
      if window_gc b \<noteq> None
      then and_then (deref (window_gc b)) (\<lambda>gc. Inr (b, vm))
      else Inr (b, vm))"

definition endCall :: "'k page \<Rightarrow> js_error + 'k page" where
  "endCall p =
     and_then (release_localStream p) (\<lambda>p.
     and_then (release_remoteStream p) (\<lambda>p.
     and_then (close_dataChannel p) (\<lambda>p.
     and_then (close_peerConnection p) (\<lambda>p.
     and_then (clear_call_state p) (\<lambda>p.
     and_then (stopCallTimer p) (\<lambda>p.
     and_then (reset_videos p) force_gc))))))"

text \<open>
  The state \<open>endCall\<close> leaves behind: no stream, channel or connection, no
  timer, no call.
\<close>

definition idle :: "'k page \<Rightarrow> bool" where
  "idle p \<longleftrightarrow>
     (let (b, vm) = p in
      localStream vm = None \<and> remoteStream vm = None \<and> dataChannel vm = None \<and>
      peerConnection vm = None \<and> \<not> isCallActive vm \<and> callTimer vm = None \<and> signalingData vm = [])"

subsection \<open>Starting a call\<close>

text \<open>
  The objects \<open>encryptSignalingData\<close> is given, and what it returns: the base64
  string, or the object itself when there is no key or encryption fails.
  \<open>JSON.stringify\<close> is a parameter.
\<close>

datatype signal =
    Offer jsstring bool int
  | Answer jsstring int
  | IceCandidate jsstring int

datatype sealed = Ciphertext jsstring | Cleartext signal

definition encryptSignalingData ::
  "'k platform \<Rightarrow> (signal \<Rightarrow> jsstring) \<Rightarrow> 'k option \<Rightarrow> byte list \<Rightarrow> signal \<Rightarrow> sealed" where
  "encryptSignalingData sub stringify key iv data =
     (case key of
        None \<Rightarrow> Cleartext data
      | Some k \<Rightarrow>
          (case subtle_encrypt sub k iv (TextEncoder_encode (stringify data)) of
             None \<Rightarrow> Cleartext data
           | Some encryptedData \<Rightarrow>
               (case spread_fromCharCode (max_arguments sub) (iv @ encryptedData) of
                  Inl error \<Rightarrow> Cleartext data
                | Inr binary \<Rightarrow>
                    (case btoa binary of
                       Inl error \<Rightarrow> Cleartext data
                     | Inr transport \<Rightarrow> Ciphertext transport))))"

text \<open>The frames a client writes to its socket.\<close>

datatype client_frame =
    create_group
  | join_group jsstring
  | chat_message jsstring
  | start_call string
  | encrypted_signaling sealed

text \<open>
  What the platform hands to one run of \<open>startCall\<close>: the outcome of
  \<open>getUserMedia\<close>, the new peer connection and data channel, the outcome of
  \<open>createOffer\<close> and of \<open>setLocalDescription\<close>, the nonce for the offer,
  \<open>Date.now()\<close> when the offer is stamped and when the timer starts, and the
  interval that \<open>setInterval\<close> returns.
\<close>

record call_env =
  getUserMedia :: "js_error + media_stream"
  new_connection :: nat
  new_channel :: nat
  createOffer :: "js_error + jsstring"
  setLocalDescription_ok :: bool
  offer_iv :: "byte list"
  time_now :: int
  time_started :: int
  new_interval :: nat

text \<open>
  The guarded send used three times in the file:
  \<open>if (ws && ws.readyState === WebSocket.OPEN) ws.send(...)\<close>.
\<close>

definition send_if_open :: "browser \<Rightarrow> nat option \<Rightarrow> client_frame \<Rightarrow> client_frame list" where
  "send_if_open b ws frame =
     (case ws of
        None \<Rightarrow> []
      | Some sock \<Rightarrow> if socket_readyState b sock = 1 then [frame] else [])"

definition startCallTimer :: "call_env \<Rightarrow> 'k page \<Rightarrow> 'k page" where
  "startCallTimer env p =
     (let (b, vm) = p in
      (b\<lparr>interval_active := (interval_active b)(new_interval env := True)\<rparr>,
       vm\<lparr>callStartTime := Some (time_started env), callTimer := Some (new_interval env)\<rparr>))"

text \<open>
  The \<open>try\<close> block of \<open>startCall(isVideo, ws)\<close>: the page it leaves, the frames
  it sent, and the exception that ended it, if one did.
\<close>

definition startCall_try ::
  "'k platform \<Rightarrow> (signal \<Rightarrow> jsstring) \<Rightarrow> call_env \<Rightarrow> bool \<Rightarrow> nat option \<Rightarrow> 'k page
     \<Rightarrow> ('k page \<times> client_frame list) \<times> js_error option" where
  "startCall_try sub stringify env isVideo ws p =
     (let (b, vm) = p;
          vm1 = vm\<lparr>isInitiator := True\<rparr>
      in case getUserMedia env of
           Inl error \<Rightarrow> (((b, vm1), []), Some error)
         | Inr stream \<Rightarrow>
             (let vm2 = vm1\<lparr>localStream := Some stream\<rparr>;
                  b2 = (if isVideo \<and> localVideo b \<noteq> None then b\<lparr>localVideo := Some (Some stream)\<rparr> else b);
                  pc = \<lparr>connection = new_connection env, onicecandidate_ws = ws\<rparr>;
                  vm3 = vm2\<lparr>peerConnection := Some pc, dataChannel := Some (new_channel env)\<rparr>
              in case createOffer env of
                   Inl error \<Rightarrow> (((b2, vm3), []), Some error)
                 | Inr offer \<Rightarrow>
                     if \<not> setLocalDescription_ok env then (((b2, vm3), []), Some InvalidStateError)
                     else
                       (let encryptedOffer =
                              encryptSignalingData sub stringify (encryptionKey vm3) (offer_iv env)
                                (Offer offer isVideo (time_now env));
                            out = send_if_open b2 ws (encrypted_signaling encryptedOffer);
                            (b4, vm4) = startCallTimer env (b2, vm3\<lparr>isCallActive := True\<rparr>)
                        in case callStatus_element b4 of
                             None \<Rightarrow> (((b4, vm4), out), Some TypeError)
                           | Some text \<Rightarrow>
                               (((b4\<lparr>callStatus_element := Some ''Connecting securely...''\<rparr>, vm4), out), None))))"

text \<open>
  \<open>handleCallError\<close>: it writes to the \<open>callStatus\<close> element (a \<open>TypeError\<close> if
  there is none) and schedules the return to the chat.
\<close>

definition handleCallError :: "'k page \<Rightarrow> js_error + 'k page" where
  "handleCallError p =
     (let (b, vm) = p in
      and_then (deref (callStatus_element b))
        (\<lambda>el. Inr (b\<lparr>callStatus_element := Some ''Call Failed'', error_timeouts := Suc (error_timeouts b)\<rparr>, vm)))"

text \<open>
  \<open>startCall\<close>: the \<open>try\<close> block, and \<open>handleCallError\<close> in the \<open>catch\<close>.  The
  result is the page, the frames sent, and the exception the returned promise
  is rejected with, if any.
\<close>

definition startCall ::
  "'k platform \<Rightarrow> (signal \<Rightarrow> jsstring) \<Rightarrow> call_env \<Rightarrow> bool \<Rightarrow> nat option \<Rightarrow> 'k page
     \<Rightarrow> ('k page \<times> client_frame list) \<times> js_error option" where
  "startCall sub stringify env isVideo ws p =
     (case startCall_try sub stringify env isVideo ws p of
        ((p', out), None) \<Rightarrow> ((p', out), None)
      | ((p', out), Some error) \<Rightarrow>
          (case handleCallError p' of
             Inl e \<Rightarrow> ((p', out), Some e)
           | Inr p'' \<Rightarrow> ((p'', out), None)))"

text \<open>
  The \<open>onicecandidate\<close> handler of a peer connection, for the event the browser
  raises with a candidate (\<open>None\<close>: the end-of-candidates event): the frames it
  sends.  \<open>ws\<close> is the variable the handler closed over.
\<close>

definition onicecandidate ::
  "'k platform \<Rightarrow> (signal \<Rightarrow> jsstring) \<Rightarrow> byte list \<Rightarrow> int \<Rightarrow> 'k page \<Rightarrow> peer_connection
     \<Rightarrow> jsstring option \<Rightarrow> client_frame list" where
  "onicecandidate sub stringify iv t p pc candidate =
     (let (b, vm) = p in
      case candidate of
        None \<Rightarrow> []
      | Some c \<Rightarrow>
          (let encryptedCandidate = encryptSignalingData sub stringify (encryptionKey vm) iv (IceCandidate c t)
           in send_if_open b (onicecandidate_ws pc) (encrypted_signaling encryptedCandidate)))"

section \<open>The client application (client/main.js)\<close>

text \<open>
  The fields of \<open>SecureChatApp\<close> that the modelled methods use.  The socket is
  stored in \<open>wss\<close>.
\<close>

record 'k secure_chat_app =
  wss :: "nat option"
  currentGroupId :: "jsstring option"
  cryptoManager :: "'k crypto_manager"

text \<open>
  No statement of the class assigns a property \<open>ws\<close>: the constructor and
  \<open>connectWebSocket\<close> assign \<open>this.wss\<close>.  Reading \<open>this.ws\<close> therefore yields
  \<open>undefined\<close>, whatever the state of the application.
\<close>

definition this_ws :: "'k secure_chat_app \<Rightarrow> nat option" where
  "this_ws app = None"

text \<open>
  The \<open>case 'call_allowed'\<close> of \<open>handleWebSocketMessage\<close>:
  \<open>this.voiceManager.startCall(message.callType === 'video', this.ws)\<close>.
\<close>

definition handle_call_allowed ::
  "'k platform \<Rightarrow> (signal \<Rightarrow> jsstring) \<Rightarrow> call_env \<Rightarrow> string \<Rightarrow> 'k secure_chat_app \<Rightarrow> 'k page
     \<Rightarrow> ('k page \<times> client_frame list) \<times> js_error option" where
  "handle_call_allowed sub stringify env callType app p =
     startCall sub stringify env (callType = ''video'') (this_ws app) p"

text \<open>
  \<open>String.prototype.trim\<close>: the white space and line terminator code units of
  ECMAScript are removed from both ends.
\<close>

definition js_whitespace :: "16 word \<Rightarrow> bool" where
  "js_whitespace u \<longleftrightarrow>
     u \<in> {0x9, 0xA, 0xB, 0xC, 0xD, 0x20, 0xA0, 0x1680, 0x2028, 0x2029, 0x202F, 0x205F, 0x3000, 0xFEFF}
     \<or> (0x2000 \<le> u \<and> u \<le> 0x200A)"

definition trim :: "jsstring \<Rightarrow> jsstring" where
  "trim s = rev (dropWhile js_whitespace (rev (dropWhile js_whitespace s)))"

text \<open>
  \<open>sendMessage\<close>: the text of the input field is trimmed, encrypted and, if the
  socket is open, sent as a \<open>chat_message\<close>; then the field is emptied.
\<close>

definition sendMessage ::
  "'k platform \<Rightarrow> byte list \<Rightarrow> 'k secure_chat_app \<Rightarrow> browser \<Rightarrow> browser \<times> client_frame list" where
  "sendMessage sub iv app b =
     (let messageText = trim (messageInput_value b) in
      if messageText = [] then (b, [])
      else
        (let encryptedMessage = encryptMessage sub (cryptoManager app) iv messageText in
         case wss app of
           None \<Rightarrow> (b, [])
         | Some sock \<Rightarrow>
             if socket_readyState b sock = 1
             then (b\<lparr>messageInput_value := []\<rparr>, [chat_message encryptedMessage])
             else (b, [])))"

text \<open>A page for running examples: nothing exists yet, every socket is open.\<close>

definition blank :: browser where
  "blank =
     \<lparr>tracks = (\<lambda>i. \<lparr>ended = False, enabled = True\<rparr>), channel_closed = (\<lambda>i. False),
      connection_closed = (\<lambda>i. False), interval_active = (\<lambda>i. False), socket_readyState = (\<lambda>i. 1),
      localVideo = None, remoteVideo = None, callTimer_element = None, callStatus_element = None,
      messageInput_value = [], window_gc = None, error_timeouts = 0\<rparr>"

text \<open>
  A negotiator in the middle of a call (tracks \<open>0\<close> and \<open>1\<close> captured, track
  \<open>2\<close> received), on a page that has both video elements and the timer.
\<close>

definition in_call :: browser where
  "in_call =
     blank\<lparr>interval_active := (\<lambda>i. i = 4), localVideo := Some (Some [0, 1]), remoteVideo := Some (Some [2]),
           callTimer_element := Some ''01:15'', callStatus_element := Some ''Connected (Encrypted)''\<rparr>"

definition talking :: "byte voice_manager" where
  "talking =
     VoiceManager\<lparr>localStream := Some [0, 1], remoteStream := Some [2],
                  peerConnection := Some \<lparr>connection = 0, onicecandidate_ws = Some 0\<rparr>,
                  dataChannel := Some 0, isCallActive := True, callStartTime := Some 1000,
                  callTimer := Some 4, encryptionKey := Some 9, isInitiator := True\<rparr>"

text \<open>
  For the examples: a \<open>CryptoManager\<close> whose key is the byte \<open>7\<close> of the stand-in
  provider, an application whose socket \<open>0\<close> is stored in \<open>wss\<close>, a run of the
  platform in which every call succeeds, and a \<open>JSON.stringify\<close> that writes
  only the kind of the object.
\<close>

definition keyed :: "byte crypto_manager" where
  "keyed = \<lparr>sharedKey = Some 7\<rparr>"

definition connected_app :: "byte secure_chat_app" where
  "connected_app = \<lparr>wss = Some 0, currentGroupId = Some (js ''room-1''), cryptoManager = CryptoManager\<rparr>"

definition all_succeed :: call_env where
  "all_succeed =
     \<lparr>getUserMedia = Inr [0], new_connection = 0, new_channel = 0, createOffer = Inr (js ''v=0''),
      setLocalDescription_ok = True, offer_iv = nonce12, time_now = 1000, time_started = 1001,
      new_interval = 4\<rparr>"

definition kind_only :: "signal \<Rightarrow> jsstring" where
  "kind_only d = (case d of Offer sdp v t \<Rightarrow> js ''offer'' | Answer sdp t \<Rightarrow> js ''answer''
                  | IceCandidate c t \<Rightarrow> js ''ice-candidate'')"

text \<open>A crypto provider that rejects every call, and one whose engine accepts only 20 arguments.\<close>

definition failing :: "byte platform" where
  "failing = \<lparr>subtle_encrypt = (\<lambda>key iv data. None), subtle_decrypt = (\<lambda>key iv data. None),
              max_arguments = 65535\<rparr>"

definition narrow :: "byte platform" where
  "narrow = standin\<lparr>max_arguments := 20\<rparr>"

section \<open>Properties of the room relay\<close>

subsection \<open>References stay valid\<close>

lemma valid_refs_init: "valid_refs init"
  by (simp add: valid_refs_def init_def)

lemma valid_refs_handle_message: "valid_refs s \<Longrightarrow> valid_refs (fst (handle_message w c m s))"
  by (cases m)
     (auto simp: valid_refs_def new_Group_def on_group_def Let_def less_Suc_eq split: option.splits if_splits)

lemma valid_refs_on_close: "valid_refs s \<Longrightarrow> valid_refs (on_close c s)"
  by (auto simp: valid_refs_def on_close_def on_group_def split: option.splits)

lemma valid_refs_step: "valid_refs s \<Longrightarrow> step w e s = Inr (s', out) \<Longrightarrow> valid_refs s'"
proof (cases e)
  case (Message c d)
  assume "valid_refs s" and "step w e s = Inr (s', out)"
  with Message show ?thesis
    by (cases d) (auto dest: valid_refs_handle_message[where w = w and c = c] simp: prod_eq_iff)
next
  case (Close c)
  assume "valid_refs s" and "step w e s = Inr (s', out)"
  with Close show ?thesis by (auto simp: valid_refs_on_close)
qed

lemma valid_refs_run: "valid_refs s \<Longrightarrow> run es s = Inr s' \<Longrightarrow> valid_refs s'"
proof (induction es arbitrary: s)
  case Nil
  then show ?case by simp
next
  case (Cons we es)
  obtain w e where we: "we = (w, e)" by (cases we)
  from Cons.prems(2) obtain s1 out where st: "step w e s = Inr (s1, out)" and r: "run es s1 = Inr s'"
    by (auto simp: we split: sum.splits)
  from valid_refs_step[OF Cons.prems(1) st] have "valid_refs s1" .
  then show ?case using r by (rule Cons.IH)
qed


subsection \<open>Broadcast\<close>

text \<open>
  Claim C1.  When connection \<open>c\<close> is in the room whose Group object is \<open>g\<close>, the
  \<open>chat_message\<close> handler changes no state and sends the relayed message to
  exactly those members of \<open>g\<close> that are not \<open>c\<close> and whose \<open>readyState\<close> is
  open: a frame goes to \<open>m\<close> if and only if \<open>m\<close> is such a member, and the frame
  is the relayed message.  The same holds of \<open>Group.broadcast\<close> for every
  payload \<open>M\<close>; no connection outside the member set is sent anything, closed
  members are skipped, and a member set without repetition gives no connection
  more than one frame.
\<close>

theorem broadcast_reaches_open_other_members:
  assumes "userGroup s c = Some r" and "heap s r = Some g"
  shows "fst (handle_message w c (ChatMessage x) s) = s
    \<and> (\<forall>m y. (m, y) \<in> set (snd (handle_message w c (ChatMessage x) s)) \<longleftrightarrow>
          m \<in> set (members g) \<and> m \<noteq> c \<and> readyState w m = 1 \<and> y = ChatMessageOut x (userId w c) (now w))
    \<and> (\<forall>m y. (m, y) \<in> set (broadcast w g M (Some c)) \<longleftrightarrow>
          m \<in> set (members g) \<and> m \<noteq> c \<and> readyState w m = 1 \<and> y = M)
    \<and> (distinct (members g) \<longrightarrow> distinct (map fst (broadcast w g M (Some c))))"
  using assms by (auto simp: broadcast_def distinct_map_filter comp_def)

theorem broadcast_reaches_open_other_members_witness:
  "userGroup lobby 2 = Some 0 \<and> heap lobby 0 = Some \<lparr>group_id = ''g'', members = [1, 2, 3, 4]\<rparr>
   \<and> snd (handle_message three_closed 2 (ChatMessage ''x'') lobby)
       = [(1, ChatMessageOut ''x'' ''user'' 0), (4, ChatMessageOut ''x'' ''user'' 0)]
   \<and> (3, ChatMessageOut ''x'' ''user'' 0) \<notin> set (snd (handle_message three_closed 2 (ChatMessage ''x'') lobby))
   \<and> distinct (map fst (broadcast three_closed \<lparr>group_id = ''g'', members = [1, 2, 3, 4]\<rparr> (Error []) (Some 2)))"
proof -
  have h1: "userGroup lobby 2 = Some 0" by (simp add: lobby_def)
  have h2: "heap lobby 0 = Some \<lparr>group_id = ''g'', members = [1, 2, 3, 4]\<rparr>" by (simp add: lobby_def)
  have ev: "snd (handle_message three_closed 2 (ChatMessage ''x'') lobby)
       = [(1, ChatMessageOut ''x'' ''user'' 0), (4, ChatMessageOut ''x'' ''user'' 0)]"
    by (simp add: lobby_def three_closed_def all_open_def broadcast_def)
  from broadcast_reaches_open_other_members[OF h1 h2, of three_closed "''x''" "Error []"]
  have "(3, ChatMessageOut ''x'' ''user'' 0) \<notin> set (snd (handle_message three_closed 2 (ChatMessage ''x'') lobby))"
    and "distinct (map fst (broadcast three_closed \<lparr>group_id = ''g'', members = [1, 2, 3, 4]\<rparr> (Error []) (Some 2)))"
    by (simp_all add: three_closed_def all_open_def)
  with h1 h2 ev show ?thesis by simp
qed

subsection \<open>Messages from a connection that is in no room\<close>

text \<open>
  Claim C4, as stated, fails for \<open>encrypted_signaling\<close>: the handler's guard is
  \<open>if (!userGroup) return;\<close>, so a connection in no room that sends signaling
  gets no reply at all.
\<close>

theorem signaling_outside_room_is_silent_counterexample:
  "snd (handle_message all_open 0 (EncryptedSignaling ''sdp'') init) = []"
  by (simp add: init_def)

text \<open>
  Claim C4, amended.  For a connection whose \<open>userGroup\<close> is \<open>null\<close>, a
  \<open>chat_message\<close> and a \<open>start_call\<close> are each answered with the error
  \<open>Not in a group\<close>, sent to that connection only, and an \<open>encrypted_signaling\<close>
  message is dropped without any reply; in all three cases the relay's state
  is unchanged and nothing is broadcast.
\<close>

theorem outside_room_no_state_change:
  assumes "userGroup s c = None"
  shows "handle_message w c (ChatMessage x) s = (s, [(c, Error ''Not in a group'')])
    \<and> handle_message w c (StartCall t) s = (s, [(c, Error ''Not in a group'')])
    \<and> handle_message w c (EncryptedSignaling d) s = (s, [])"
  using assms by simp

theorem outside_room_no_state_change_witness:
  "userGroup (init :: string relay) 5 = None
   \<and> handle_message all_open 5 (ChatMessage ''hello'') init = (init, [(5, Error ''Not in a group'')])
   \<and> handle_message all_open 5 (StartCall ''voice'') init = (init, [(5, Error ''Not in a group'')])
   \<and> handle_message all_open 5 (EncryptedSignaling ''sdp'') init = (init, [])"
proof -
  have h: "userGroup (init :: string relay) 5 = None" by (simp add: init_def)
  from outside_room_no_state_change[OF h, of all_open "''hello''" "''voice''" "''sdp''"] h
  show ?thesis by simp
qed

subsection \<open>Rooms whose last member has left\<close>




subsection \<open>Membership in more than one room\<close>

text \<open>
  Claim C6, as stated, fails: a connection that joins room \<open>A\<close> and then room
  \<open>B\<close> is in the member sets of both.
\<close>

theorem member_of_two_rooms_counterexample:
  "case run [(all_open, Message 7 (Parsed (JoinGroup ''A''))), (all_open, Message 7 (Parsed (JoinGroup ''B'')))] init of
     Inl err \<Rightarrow> False
   | Inr s \<Rightarrow> room_members s ''A'' = Some [7] \<and> room_members s ''B'' = Some [7]"
  by (simp add: init_def all_open_def new_Group_def on_group_def add_def remove_def Let_def room_members_def)

text \<open>
  Claim C6, amended.  Each connection has at most one current room, the one
  its \<open>userGroup\<close> variable refers to.  \<open>join_group\<close> for room \<open>B\<close> makes \<open>B\<close> (created
  if absent) the current room and adds the connection to the member set of
  \<open>B\<close>; it changes no other Group object, so a connection that was a member of
  another room is still in that room's member set afterwards.
\<close>

theorem join_group_keeps_other_memberships:
  assumes "valid_refs s"
  shows "\<exists>r g. groups (fst (handle_message w c (JoinGroup B) s)) B = Some r
      \<and> userGroup (fst (handle_message w c (JoinGroup B) s)) c = Some r
      \<and> heap (fst (handle_message w c (JoinGroup B) s)) r = Some g \<and> c \<in> set (members g)
      \<and> (\<forall>r'. r' \<noteq> r \<longrightarrow> heap (fst (handle_message w c (JoinGroup B) s)) r' = heap s r')"
proof (cases "groups s B")
  case None
  then show ?thesis
    by (auto simp: new_Group_def on_group_def add_def Let_def)
next
  case (Some r)
  with assms have "heap s r \<noteq> None" unfolding valid_refs_def by blast
  then obtain g where "heap s r = Some g" by blast
  with Some show ?thesis
    by (auto simp: on_group_def add_def Let_def)
qed

theorem join_group_keeps_other_memberships_witness:
  "valid_refs solo
   \<and> userGroup (fst (handle_message all_open 0 (JoinGroup ''B'') solo)) 0 = Some 1
   \<and> room_members (fst (handle_message all_open 0 (JoinGroup ''B'') solo)) ''B'' = Some [0]
   \<and> room_members (fst (handle_message all_open 0 (JoinGroup ''B'') solo)) ''room-1'' = Some [0]"
proof -
  let ?s' = "fst (handle_message all_open 0 (JoinGroup ''B'') solo)"
  have h: "valid_refs solo" by (auto simp: valid_refs_def solo_def)
  have g: "groups ?s' ''B'' = Some 1" "groups ?s' ''room-1'' = Some 0"
    by (simp_all add: solo_def new_Group_def on_group_def Let_def)
  have old: "heap solo 0 = Some \<lparr>group_id = ''room-1'', members = [0]\<rparr>" by (simp add: solo_def)
  from join_group_keeps_other_memberships[OF h, of all_open 0 "''B''"] g
  obtain gB where u: "userGroup ?s' 0 = Some 1" and hB: "heap ?s' 1 = Some gB" "0 \<in> set (members gB)"
    and rest: "\<forall>r'. r' \<noteq> 1 \<longrightarrow> heap ?s' r' = heap solo r'"
    by auto
  from rest old have "heap ?s' 0 = Some \<lparr>group_id = ''room-1'', members = [0]\<rparr>" by simp
  then have a: "room_members ?s' ''room-1'' = Some [0]" using g by (simp add: room_members_def)
  have b: "room_members ?s' ''B'' = Some [0]"
    by (simp add: room_members_def solo_def new_Group_def on_group_def add_def Let_def)
  from h u a b show ?thesis by simp
qed

subsection \<open>Leaving\<close>

text \<open>
  Claim C8.  \<open>leave_group\<close> from a connection whose \<open>userGroup\<close> is \<open>null\<close> sends
  nothing (no error reply) and changes no state; and for every connection and
  state, handling \<open>leave_group\<close> twice in a row leaves the relay in the same
  state as handling it once.
\<close>

theorem leave_group_idempotent:
  "(userGroup s c = None \<longrightarrow> handle_message w c LeaveGroup s = (s, []))
   \<and> fst (handle_message w' c LeaveGroup (fst (handle_message w c LeaveGroup s)))
       = fst (handle_message w c LeaveGroup s)"
  by (auto simp: Let_def on_group_def split: option.splits)

theorem leave_group_idempotent_witness:
  "userGroup (init :: string relay) 3 = None
   \<and> handle_message all_open 3 LeaveGroup init = (init, [])
   \<and> fst (handle_message three_closed 0 LeaveGroup (fst (handle_message all_open 0 LeaveGroup solo)))
       = fst (handle_message all_open 0 LeaveGroup solo)
   \<and> snd (handle_message all_open 0 LeaveGroup solo) = [(0, LeftGroup ''room-1'')]"
proof -
  have h: "userGroup (init :: string relay) 3 = None" by (simp add: init_def)
  have out: "snd (handle_message all_open 0 LeaveGroup solo) = [(0, LeftGroup ''room-1'')]"
    by (simp add: solo_def on_group_def remove_def Let_def)
  from leave_group_idempotent[of init 3 all_open three_closed]
    leave_group_idempotent[of solo 0 all_open three_closed] h out
  show ?thesis by simp
qed

section \<open>Properties of the session negotiator\<close>

subsection \<open>Ending a call\<close>

lemma release_localStream_ok:
  "\<exists>b'. release_localStream (b, vm) = Inr (b', vm\<lparr>localStream := None\<rparr>) \<and> (localStream vm = None \<longrightarrow> b' = b)
     \<and> localVideo b' = localVideo b \<and> remoteVideo b' = remoteVideo b \<and> callTimer_element b' = callTimer_element b
     \<and> window_gc b' = window_gc b"
  by (cases "localStream vm") (auto simp: release_localStream_def and_then_def deref_def stop_tracks_def)

lemma release_remoteStream_ok:
  "\<exists>b'. release_remoteStream (b, vm) = Inr (b', vm\<lparr>remoteStream := None\<rparr>) \<and> (remoteStream vm = None \<longrightarrow> b' = b)
     \<and> localVideo b' = localVideo b \<and> remoteVideo b' = remoteVideo b \<and> callTimer_element b' = callTimer_element b
     \<and> window_gc b' = window_gc b"
  by (cases "remoteStream vm") (auto simp: release_remoteStream_def and_then_def deref_def stop_tracks_def)

lemma close_dataChannel_ok:
  "\<exists>b'. close_dataChannel (b, vm) = Inr (b', vm\<lparr>dataChannel := None\<rparr>) \<and> (dataChannel vm = None \<longrightarrow> b' = b)
     \<and> localVideo b' = localVideo b \<and> remoteVideo b' = remoteVideo b \<and> callTimer_element b' = callTimer_element b
     \<and> window_gc b' = window_gc b"
  by (cases "dataChannel vm") (auto simp: close_dataChannel_def and_then_def deref_def)

lemma close_peerConnection_ok:
  "\<exists>b'. close_peerConnection (b, vm) = Inr (b', vm\<lparr>peerConnection := None\<rparr>) \<and> (peerConnection vm = None \<longrightarrow> b' = b)
     \<and> localVideo b' = localVideo b \<and> remoteVideo b' = remoteVideo b \<and> callTimer_element b' = callTimer_element b
     \<and> window_gc b' = window_gc b"
  by (cases "peerConnection vm") (auto simp: close_peerConnection_def and_then_def deref_def)

lemma stopCallTimer_ok:
  "\<exists>b'. stopCallTimer (b, vm) = Inr (b', vm\<lparr>callTimer := None\<rparr>)
     \<and> (callTimer vm = None \<and> callTimer_element b \<in> {None, Some ''00:00''} \<longrightarrow> b' = b)
     \<and> localVideo b' = localVideo b \<and> remoteVideo b' = remoteVideo b
     \<and> callTimer_element b' \<in> {None, Some ''00:00''} \<and> window_gc b' = window_gc b"
  by (cases "callTimer vm"; cases "callTimer_element b"; cases b)
     (auto simp: stopCallTimer_def and_then_def deref_def)

lemma reset_videos_ok:
  "\<exists>b'. reset_videos (b, vm) = Inr (b', vm)
     \<and> (localVideo b \<in> {None, Some None} \<and> remoteVideo b \<in> {None, Some None} \<longrightarrow> b' = b)
     \<and> localVideo b' \<in> {None, Some None} \<and> remoteVideo b' \<in> {None, Some None}
     \<and> callTimer_element b' = callTimer_element b \<and> window_gc b' = window_gc b"
  by (cases "localVideo b"; cases "remoteVideo b"; cases b)
     (auto simp: reset_videos_def and_then_def deref_def)

lemma force_gc_ok: "force_gc p = Inr p"
  by (cases p; cases "window_gc (fst p)") (auto simp: force_gc_def and_then_def deref_def)

lemma endCall_steps:
  "\<exists>b'. endCall (b, vm) =
          Inr (b', vm\<lparr>localStream := None, remoteStream := None, dataChannel := None, peerConnection := None,
                       signalingData := [], isCallActive := False, callTimer := None\<rparr>)
     \<and> localVideo b' \<in> {None, Some None} \<and> remoteVideo b' \<in> {None, Some None}
     \<and> callTimer_element b' \<in> {None, Some ''00:00''}
     \<and> (idle (b, vm) \<and> localVideo b \<in> {None, Some None} \<and> remoteVideo b \<in> {None, Some None}
          \<and> callTimer_element b \<in> {None, Some ''00:00''} \<longrightarrow> b' = b)"
proof -
  let ?vm1 = "vm\<lparr>localStream := None\<rparr>"
  let ?vm2 = "?vm1\<lparr>remoteStream := None\<rparr>"
  let ?vm3 = "?vm2\<lparr>dataChannel := None\<rparr>"
  let ?vm4 = "?vm3\<lparr>peerConnection := None\<rparr>"
  let ?vm5 = "?vm4\<lparr>signalingData := [], isCallActive := False\<rparr>"
  let ?vm6 = "?vm5\<lparr>callTimer := None\<rparr>"
  from release_localStream_ok[of b vm]
  obtain b1 where s1: "release_localStream (b, vm) = Inr (b1, ?vm1)"
    and k1: "localStream vm = None \<longrightarrow> b1 = b" "localVideo b1 = localVideo b" "remoteVideo b1 = remoteVideo b"
        "callTimer_element b1 = callTimer_element b"
    by (elim exE conjE)
  from release_remoteStream_ok[of b1 ?vm1]
  obtain b2 where s2: "release_remoteStream (b1, ?vm1) = Inr (b2, ?vm2)"
    and k2: "remoteStream ?vm1 = None \<longrightarrow> b2 = b1" "localVideo b2 = localVideo b1" "remoteVideo b2 = remoteVideo b1"
        "callTimer_element b2 = callTimer_element b1"
    by (elim exE conjE)
  from close_dataChannel_ok[of b2 ?vm2]
  obtain b3 where s3: "close_dataChannel (b2, ?vm2) = Inr (b3, ?vm3)"
    and k3: "dataChannel ?vm2 = None \<longrightarrow> b3 = b2" "localVideo b3 = localVideo b2" "remoteVideo b3 = remoteVideo b2"
        "callTimer_element b3 = callTimer_element b2"
    by (elim exE conjE)
  from close_peerConnection_ok[of b3 ?vm3]
  obtain b4 where s4: "close_peerConnection (b3, ?vm3) = Inr (b4, ?vm4)"
    and k4: "peerConnection ?vm3 = None \<longrightarrow> b4 = b3" "localVideo b4 = localVideo b3" "remoteVideo b4 = remoteVideo b3"
        "callTimer_element b4 = callTimer_element b3"
    by (elim exE conjE)
  have s5: "clear_call_state (b4, ?vm4) = Inr (b4, ?vm5)"
    by (simp add: clear_call_state_def)
  from stopCallTimer_ok[of b4 ?vm5]
  obtain b6 where s6: "stopCallTimer (b4, ?vm5) = Inr (b6, ?vm6)"
    and k6: "callTimer ?vm5 = None \<and> callTimer_element b4 \<in> {None, Some ''00:00''} \<longrightarrow> b6 = b4"
        "localVideo b6 = localVideo b4" "remoteVideo b6 = remoteVideo b4"
        "callTimer_element b6 \<in> {None, Some ''00:00''}"
    by (elim exE conjE)
  from reset_videos_ok[of b6 ?vm6]
  obtain b7 where s7: "reset_videos (b6, ?vm6) = Inr (b7, ?vm6)"
    and k7: "localVideo b6 \<in> {None, Some None} \<and> remoteVideo b6 \<in> {None, Some None} \<longrightarrow> b7 = b6"
        "localVideo b7 \<in> {None, Some None}" "remoteVideo b7 \<in> {None, Some None}"
        "callTimer_element b7 = callTimer_element b6"
    by (elim exE conjE)
  have run: "endCall (b, vm) = Inr (b7, ?vm6)"
    unfolding endCall_def
    by (simp only: s1 s2 s3 s4 s5 s6 s7 force_gc_ok and_then_def sum.case prod.case)
  have same: "b7 = b"
    if "idle (b, vm)" "localVideo b \<in> {None, Some None}" "remoteVideo b \<in> {None, Some None}"
       "callTimer_element b \<in> {None, Some ''00:00''}"
  proof -
    from that(1) have f: "localStream vm = None" "remoteStream vm = None" "dataChannel vm = None"
      "peerConnection vm = None" "callTimer vm = None"
      by (simp_all add: idle_def)
    from f(1) k1(1) have "b1 = b" by simp
    moreover from f(2) k2(1) have "b2 = b1" by simp
    moreover from f(3) k3(1) have "b3 = b2" by simp
    moreover from f(4) k4(1) have "b4 = b3" by simp
    ultimately have b4: "b4 = b" by simp
    from f(5) that(4) k6(1) b4 have b6: "b6 = b" by simp
    from that(2,3) k7(1) b6 show ?thesis by simp
  qed
  have vm6: "?vm6 = vm\<lparr>localStream := None, remoteStream := None, dataChannel := None, peerConnection := None,
                       signalingData := [], isCallActive := False, callTimer := None\<rparr>"
    by simp
  have t: "callTimer_element b7 \<in> {None, Some ''00:00''}" using k7(4) k6(4) by simp
  show ?thesis
    apply (rule exI[of _ b7])
    apply (intro conjI impI)
    subgoal using run vm6 by simp
    subgoal by (rule k7(2))
    subgoal by (rule k7(3))
    subgoal by (rule t)
    subgoal using same by blast
    done
qed

text \<open>
  Claim C7.  From every state of the negotiator and of the page, including the
  state the constructor leaves (no stream, channel or connection was ever
  created), \<open>endCall\<close> returns without raising; afterwards \<open>isCallActive\<close> is
  false and \<open>localStream\<close>, \<open>remoteStream\<close>, \<open>dataChannel\<close> and \<open>peerConnection\<close> are
  all \<open>null\<close>; and a second \<open>endCall\<close> right after the first returns without
  raising and leaves that state as it is.
\<close>

theorem endCall_safe_and_idempotent:
  "\<exists>b' vm'. endCall (b, vm) = Inr (b', vm')
     \<and> \<not> isCallActive vm' \<and> localStream vm' = None \<and> remoteStream vm' = None
     \<and> dataChannel vm' = None \<and> peerConnection vm' = None
     \<and> endCall (b', vm') = Inr (b', vm')"
proof -
  let ?vm' = "vm\<lparr>localStream := None, remoteStream := None, dataChannel := None, peerConnection := None,
                  signalingData := [], isCallActive := False, callTimer := None\<rparr>"
  obtain b' where first: "endCall (b, vm) = Inr (b', ?vm')"
    and settled: "localVideo b' \<in> {None, Some None}" "remoteVideo b' \<in> {None, Some None}"
      "callTimer_element b' \<in> {None, Some ''00:00''}"
    using endCall_steps[of b vm] by (elim exE conjE)
  have idle': "idle (b', ?vm')" by (simp add: idle_def)
  obtain b'' where second: "endCall (b', ?vm') =
      Inr (b'', ?vm'\<lparr>localStream := None, remoteStream := None, dataChannel := None, peerConnection := None,
                       signalingData := [], isCallActive := False, callTimer := None\<rparr>)"
    and same: "idle (b', ?vm') \<and> localVideo b' \<in> {None, Some None} \<and> remoteVideo b' \<in> {None, Some None}
          \<and> callTimer_element b' \<in> {None, Some ''00:00''} \<longrightarrow> b'' = b'"
    using endCall_steps[of b' ?vm'] by (elim exE conjE)
  from same idle' settled have "b'' = b'" by simp
  with second have "endCall (b', ?vm') = Inr (b', ?vm')" by simp
  with first show ?thesis by auto
qed

theorem endCall_safe_and_idempotent_witness:
  "endCall (blank, VoiceManager :: nat voice_manager) = Inr (blank, VoiceManager)
   \<and> (\<exists>b' vm'. endCall (in_call, talking) = Inr (b', vm')
         \<and> \<not> isCallActive vm' \<and> localStream vm' = None \<and> remoteStream vm' = None
         \<and> dataChannel vm' = None \<and> peerConnection vm' = None \<and> endCall (b', vm') = Inr (b', vm'))"
proof -
  have "endCall (blank, VoiceManager :: nat voice_manager) = Inr (blank, VoiceManager)"
    using endCall_safe_and_idempotent[of blank "VoiceManager :: nat voice_manager"]
    by (simp add: endCall_def release_localStream_def release_remoteStream_def close_dataChannel_def
        close_peerConnection_def clear_call_state_def stopCallTimer_def reset_videos_def force_gc_def
        and_then_def deref_def VoiceManager_def blank_def)
  with endCall_safe_and_idempotent[of in_call talking] show ?thesis by simp
qed

section \<open>Properties of the symmetric channel\<close>

subsection \<open>Base64: \<open>atob\<close> inverts \<open>btoa\<close>\<close>

lemma b64_index_char: "n < 64 \<Longrightarrow> b64_index (b64_char n) = Some n"
  unfolding b64_index_def b64_char_def Let_def
  by (auto simp: unat_of_nat)

lemma b64_char_neq_pad: "n < 64 \<Longrightarrow> b64_char n \<noteq> 61"
proof
  assume n: "n < 64" and "b64_char n = 61"
  then have "b64_index (61 :: 16 word) = Some n" using b64_index_char by metis
  then show False by (simp add: b64_index_def)
qed

lemma b64_char_not_whitespace: "n < 64 \<Longrightarrow> \<not> ascii_whitespace (b64_char n)"
proof
  assume n: "n < 64" and "ascii_whitespace (b64_char n)"
  then obtain u :: "16 word" where "b64_char n = u" and "ascii_whitespace u" by simp
  with n have "b64_index u = Some n" and "u = 9 \<or> u = 10 \<or> u = 12 \<or> u = 13 \<or> u = 32"
    using b64_index_char by (auto simp: ascii_whitespace_def)
  then show False by (auto simp: b64_index_def)
qed

lemma b64_sextets_bound: "\<forall>a \<in> set bs. a < 256 \<Longrightarrow> \<forall>x \<in> set (b64_sextets bs). x < 64"
  by (induction bs rule: b64_sextets.induct) auto

lemma b64_octets_sextets: "\<forall>a \<in> set bs. a < 256 \<Longrightarrow> b64_octets (b64_sextets bs) = bs"
  by (induction bs rule: b64_sextets.induct) auto

lemma length_b64_sextets:
  "length (b64_sextets bs) = 4 * (length bs div 3) + (if length bs mod 3 = 0 then 0 else Suc (length bs mod 3))"
proof (induction bs rule: b64_sextets.induct)
  case (1 a b c rest)
  have "length (a # b # c # rest) div 3 = Suc (length rest div 3)"
    and "length (a # b # c # rest) mod 3 = length rest mod 3"
    by simp_all
  with 1 show ?case by simp
qed simp_all

lemma padded_length:
  "(length (b64_sextets bs) + (3 - length bs mod 3) mod 3) mod 4 = 0"
proof -
  have "length bs mod 3 = 0 \<or> length bs mod 3 = 1 \<or> length bs mod 3 = 2" by arith
  then show ?thesis by (auto simp: length_b64_sextets)
qed

lemma strip_padding_encoded:
  assumes "\<forall>x \<in> set sx. x < 64" and "k \<le> 2" and "(length sx + k) mod 4 = 0"
  shows "strip_padding (map b64_char sx @ replicate k 61) = map b64_char sx"
proof (cases "sx = []")
  case True
  with assms have "k = 0" by (cases k) auto
  with True show ?thesis by (simp add: strip_padding_def)
next
  case False
  then obtain ys y where sx: "sx = ys @ [y]" by (metis rev_exhaust)
  with assms(1) have y: "b64_char y \<noteq> 61" by (simp add: b64_char_neq_pad)
  consider "k = 0" | "k = 1" | "k = 2" using assms(2) by arith
  then show ?thesis
  proof cases
    case 1
    with assms(3) sx have "ys \<noteq> []" by auto
    then obtain zs z where "ys = zs @ [z]" by (metis rev_exhaust)
    with 1 sx y assms(3) show ?thesis by (simp add: strip_padding_def)
  next
    case 2
    with sx y assms(3) show ?thesis by (simp add: strip_padding_def)
  next
    case 3
    with sx y assms(3) show ?thesis by (simp add: strip_padding_def numeral_2_eq_2)
  qed
qed

lemma those_index_char: "\<forall>x \<in> set sx. x < 64 \<Longrightarrow> those (map b64_index (map b64_char sx)) = Some sx"
  by (induction sx) (auto simp: b64_index_char)

lemma atob_btoa:
  assumes "btoa s = Inr t"
  shows "atob t = Inr s"
proof -
  let ?bs = "map unat s"
  let ?sx = "b64_sextets ?bs"
  let ?k = "(3 - length s mod 3) mod 3"
  from assms have small: "\<forall>u \<in> set s. unat u \<le> 255"
    and t: "t = map b64_char ?sx @ replicate ?k 61"
    by (auto simp: btoa_def split: if_splits)
  from small have bs: "\<forall>a \<in> set ?bs. a < 256" by auto
  then have sx: "\<forall>x \<in> set ?sx. x < 64" by (rule b64_sextets_bound)
  have nows: "filter (\<lambda>u. \<not> ascii_whitespace u) t = t"
  proof -
    have "\<not> ascii_whitespace (61 :: 16 word)" by (simp add: ascii_whitespace_def)
    then have "\<forall>u \<in> set t. \<not> ascii_whitespace u"
      using sx by (auto simp: t b64_char_not_whitespace)
    then show ?thesis by (simp add: filter_id_conv)
  qed
  have k: "?k \<le> 2" by arith
  have len: "(length ?sx + ?k) mod 4 = 0" using padded_length[of ?bs] by simp
  have strip: "strip_padding t = map b64_char ?sx"
    unfolding t using sx k len by (rule strip_padding_encoded)
  have not1: "length ?sx mod 4 \<noteq> 1"
  proof -
    have "length s mod 3 = 0 \<or> length s mod 3 = 1 \<or> length s mod 3 = 2" by arith
    then show ?thesis using length_b64_sextets[of ?bs] by auto
  qed
  have restored: "map of_nat (b64_octets ?sx) = s"
    using b64_octets_sextets[OF bs] by (simp add: map_idI)
  show ?thesis
    unfolding atob_def Let_def nows strip
    using not1 those_index_char[OF sx] restored by simp
qed

lemma unat_byte_as_unit: "unat (ucast b :: 16 word) = unat b" for b :: byte
proof -
  have "unat b < 256" using unsigned_less[of b, where 'a = nat] by simp
  then show ?thesis by (simp add: unsigned_ucast_eq take_bit_eq_mod)
qed

lemma btoa_fromCharCode: "\<exists>t. btoa (fromCharCode bs) = Inr t"
proof -
  have "unat (ucast b :: 16 word) \<le> 255" for b :: byte
    using unsigned_less[of b, where 'a = nat] by (simp add: unat_byte_as_unit)
  then show ?thesis by (auto simp: btoa_def fromCharCode_def not_less)
qed

lemma charCodes_fromCharCode: "charCodes (fromCharCode bs) = bs"
proof -
  have "ucast (ucast b :: 16 word) = b" for b :: byte
    by (rule ucast_up_ucast_id) (simp add: is_up)
  then show ?thesis by (simp add: charCodes_def fromCharCode_def comp_def)
qed

subsection \<open>UTF-8: \<open>TextDecoder\<close> inverts \<open>TextEncoder\<close> on well-formed text\<close>

text \<open>One rule for each transition of the decoder; the defining equations are then put aside.\<close>

lemma dec_ascii: "b \<le> 0x7F \<Longrightarrow> utf8_decode cp 0 seen lo hi (b # bs) = b # utf8_decode 0 0 0 0x80 0xBF bs"
  by simp

lemma dec_lead2:
  "0xC2 \<le> b \<Longrightarrow> b \<le> 0xDF \<Longrightarrow> utf8_decode cp 0 seen lo hi (b # bs) = utf8_decode (b mod 0x20) 1 0 0x80 0xBF bs"
  by simp

lemma dec_lead3:
  "0xE0 \<le> b \<Longrightarrow> b \<le> 0xEF \<Longrightarrow>
   utf8_decode cp 0 seen lo hi (b # bs) =
   utf8_decode (b mod 0x10) 2 0 (if b = 0xE0 then 0xA0 else 0x80) (if b = 0xED then 0x9F else 0xBF) bs"
  by simp

lemma dec_lead4:
  "0xF0 \<le> b \<Longrightarrow> b \<le> 0xF4 \<Longrightarrow>
   utf8_decode cp 0 seen lo hi (b # bs) =
   utf8_decode (b mod 0x08) 3 0 (if b = 0xF0 then 0x90 else 0x80) (if b = 0xF4 then 0x8F else 0xBF) bs"
  by simp

lemma dec_cont:
  "needed \<noteq> 0 \<Longrightarrow> lo \<le> b \<Longrightarrow> b \<le> hi \<Longrightarrow> Suc seen \<noteq> needed \<Longrightarrow>
   utf8_decode cp needed seen lo hi (b # bs) = utf8_decode (cp * 0x40 + b mod 0x40) needed (Suc seen) 0x80 0xBF bs"
  by simp

lemma dec_last:
  "needed \<noteq> 0 \<Longrightarrow> lo \<le> b \<Longrightarrow> b \<le> hi \<Longrightarrow> Suc seen = needed \<Longrightarrow>
   utf8_decode cp needed seen lo hi (b # bs) = (cp * 0x40 + b mod 0x40) # utf8_decode 0 0 0 0x80 0xBF bs"
  by simp

declare utf8_decode.simps [simp del]

lemma cont_byte: "x < 64 \<Longrightarrow> (0x80 + x) mod 0x40 = x" for x :: nat
  by (simp add: mod_if)

lemma lead2_byte: "q < 32 \<Longrightarrow> (0xC0 + q) mod 0x20 = q" for q :: nat
  by (simp add: mod_if)

lemma lead3_byte: "q < 16 \<Longrightarrow> (0xE0 + q) mod 0x10 = q" for q :: nat
  by (simp add: mod_if)

lemma lead4_byte: "q < 8 \<Longrightarrow> (0xF0 + q) mod 0x08 = q" for q :: nat
  by (simp add: mod_if)

lemma div_4096: "c div 0x1000 = c div 0x40 div 0x40" for c :: nat
  by (simp add: div_mult2_eq[symmetric])

lemma div_262144: "c div 0x40000 = c div 0x40 div 0x40 div 0x40" for c :: nat
  by (simp add: div_mult2_eq[symmetric])

lemma utf8_decode_bytes:
  assumes "is_scalar c"
  shows "utf8_decode 0 0 0 0x80 0xBF (utf8_bytes c @ rest) = c # utf8_decode 0 0 0 0x80 0xBF rest"
proof -
  define q1 where "q1 = c div 0x40"
  define q2 where "q2 = q1 div 0x40"
  define q3 where "q3 = q2 div 0x40"
  define d0 where "d0 = c mod 0x40"
  define d1 where "d1 = q1 mod 0x40"
  define d2 where "d2 = q2 mod 0x40"
  have c: "c = q1 * 0x40 + d0" and q1: "q1 = q2 * 0x40 + d1" and q2: "q2 = q3 * 0x40 + d2"
    by (simp_all add: q1_def q2_def q3_def d0_def d1_def d2_def)
  have d: "d0 < 0x40" "d1 < 0x40" "d2 < 0x40"
    by (simp_all add: d0_def d1_def d2_def)
  have bytes: "utf8_bytes c =
     (if c < 0x80 then [c]
      else if c < 0x800 then [0xC0 + q1, 0x80 + d0]
      else if c < 0x10000 then [0xE0 + q2, 0x80 + d1, 0x80 + d0]
      else [0xF0 + q3, 0x80 + d2, 0x80 + d1, 0x80 + d0])"
    by (simp add: utf8_bytes_def div_4096 div_262144 q1_def q2_def q3_def d0_def d1_def d2_def)
  note cb = cont_byte[OF d(1)] cont_byte[OF d(2)] cont_byte[OF d(3)]
  consider "c < 0x80" | "0x80 \<le> c" "c < 0x800" | "0x800 \<le> c" "c < 0x10000" | "0x10000 \<le> c"
    by linarith
  then show ?thesis
  proof cases
    case 1
    then show ?thesis by (simp add: bytes dec_ascii)
  next
    case 2
    have r1: "0xC2 \<le> 0xC0 + q1" "0xC0 + q1 \<le> 0xDF" "q1 < 32" using 2 c d by linarith+
    have r0: "0x80 \<le> 0x80 + d0" "0x80 + d0 \<le> 0xBF" using d by linarith+
    have v: "q1 * 0x40 + d0 = c" using c by simp
    show ?thesis using 2
      by (simp add: bytes dec_lead2[OF r1(1,2)] lead2_byte[OF r1(3)] dec_last[OF _ r0] cb v)
  next
    case 3
    have r2: "0xE0 \<le> 0xE0 + q2" "0xE0 + q2 \<le> 0xEF" "q2 < 16" using 3 c q1 d by linarith+
    have "0xA0 \<le> 0x80 + d1" if "q2 = 0" using that 3 c q1 d by linarith
    moreover have "0x80 + d1 \<le> 0x9F" if "q2 = 13" using that 3 c q1 d assms unfolding is_scalar_def by linarith
    ultimately have r1: "(if 0xE0 + q2 = 0xE0 then 0xA0 else 0x80) \<le> 0x80 + d1"
      "0x80 + d1 \<le> (if 0xE0 + q2 = 0xED then 0x9F else 0xBF)"
      using d by auto
    have r0: "0x80 \<le> 0x80 + d0" "0x80 + d0 \<le> 0xBF" using d by linarith+
    have v: "(q2 * 0x40 + d1) * 0x40 + d0 = c" using c q1 by simp
    let ?lo = "if 0xE0 + q2 = 0xE0 then 0xA0 else (0x80 :: nat)"
    let ?hi = "if 0xE0 + q2 = 0xED then 0x9F else (0xBF :: nat)"
    have "utf8_decode 0 0 0 0x80 0xBF ((0xE0 + q2) # (0x80 + d1) # (0x80 + d0) # rest)
          = utf8_decode q2 2 0 ?lo ?hi ((0x80 + d1) # (0x80 + d0) # rest)"
      using dec_lead3[OF r2(1,2)] lead3_byte[OF r2(3)] by simp
    also have "\<dots> = utf8_decode (q2 * 0x40 + d1) 2 (Suc 0) 0x80 0xBF ((0x80 + d0) # rest)"
      using dec_cont[OF _ r1, of 2 0 q2] cb by simp
    also have "\<dots> = ((q2 * 0x40 + d1) * 0x40 + d0) # utf8_decode 0 0 0 0x80 0xBF rest"
      using dec_last[OF _ r0, of 2 "Suc 0" "q2 * 0x40 + d1"] cb by simp
    finally show ?thesis using 3 v by (simp add: bytes)
  next
    case 4
    have lt: "c < 0x110000" using assms by (simp add: is_scalar_def)
    have r3: "0xF0 \<le> 0xF0 + q3" "0xF0 + q3 \<le> 0xF4" "q3 < 8" using 4 lt c q1 q2 d by linarith+
    have "0x90 \<le> 0x80 + d2" if "q3 = 0" using that 4 c q1 q2 d by linarith
    moreover have "0x80 + d2 \<le> 0x8F" if "q3 = 4" using that lt c q1 q2 d by linarith
    ultimately have r2: "(if 0xF0 + q3 = 0xF0 then 0x90 else 0x80) \<le> 0x80 + d2"
      "0x80 + d2 \<le> (if 0xF0 + q3 = 0xF4 then 0x8F else 0xBF)"
      using d by auto
    have r1: "0x80 \<le> 0x80 + d1" "0x80 + d1 \<le> 0xBF" using d by linarith+
    have r0: "0x80 \<le> 0x80 + d0" "0x80 + d0 \<le> 0xBF" using d by linarith+
    have v: "((q3 * 0x40 + d2) * 0x40 + d1) * 0x40 + d0 = c" using c q1 q2 by simp
    let ?lo = "if 0xF0 + q3 = 0xF0 then 0x90 else (0x80 :: nat)"
    let ?hi = "if 0xF0 + q3 = 0xF4 then 0x8F else (0xBF :: nat)"
    have "utf8_decode 0 0 0 0x80 0xBF ((0xF0 + q3) # (0x80 + d2) # (0x80 + d1) # (0x80 + d0) # rest)
          = utf8_decode q3 3 0 ?lo ?hi ((0x80 + d2) # (0x80 + d1) # (0x80 + d0) # rest)"
      using dec_lead4[OF r3(1,2)] lead4_byte[OF r3(3)] by simp
    also have "\<dots> = utf8_decode (q3 * 0x40 + d2) 3 (Suc 0) 0x80 0xBF ((0x80 + d1) # (0x80 + d0) # rest)"
      using dec_cont[OF _ r2, of 3 0 q3] cb by simp
    also have "\<dots> = utf8_decode ((q3 * 0x40 + d2) * 0x40 + d1) 3 (Suc (Suc 0)) 0x80 0xBF ((0x80 + d0) # rest)"
      using dec_cont[OF _ r1, of 3 "Suc 0" "q3 * 0x40 + d2"] cb by simp
    also have "\<dots> = (((q3 * 0x40 + d2) * 0x40 + d1) * 0x40 + d0) # utf8_decode 0 0 0 0x80 0xBF rest"
      using dec_last[OF _ r0, of 3 "Suc (Suc 0)" "(q3 * 0x40 + d2) * 0x40 + d1"] cb by simp
    finally show ?thesis using 4 v by (simp add: bytes)
  qed
qed



lemma utf8_decode_concat:
  "\<forall>c \<in> set cs. is_scalar c \<Longrightarrow> utf8_decode 0 0 0 0x80 0xBF (concat (map utf8_bytes cs)) = cs"
  by (induction cs) (simp_all add: utf8_decode.simps(1) utf8_decode_bytes)



lemma utf8_bytes_bound: "c < 0x110000 \<Longrightarrow> \<forall>b \<in> set (utf8_bytes c). b < 256"
proof -
  assume lt: "c < 0x110000"
  have m: "x mod 0x40 < 0x40" for x :: nat by simp
  have "c div 0x40 < 0x20" if "c < 0x800" using that by linarith
  moreover have "c div 0x1000 < 0x10" if "c < 0x10000" using that by linarith
  moreover have "c div 0x40000 < 0x08" using lt by linarith
  ultimately show ?thesis
    using m[of c] m[of "c div 0x40"] m[of "c div 0x1000"] by (auto simp: utf8_bytes_def)
qed



lemma pair_value:
  assumes "0xD800 \<le> c" "c < 0xDC00" "0xDC00 \<le> d" "d \<le> 0xDFFF"
  shows "is_scalar (0x10000 + (c - 0xD800) * 0x400 + (d - 0xDC00))"
    and "code_units (0x10000 + (c - 0xD800) * 0x400 + (d - 0xDC00)) = [c, d]"
proof -
  define h where "h = c - 0xD800"
  define l where "l = d - 0xDC00"
  have h: "h < 0x400" "c = 0xD800 + h" and l: "l < 0x400" "d = 0xDC00 + l"
    using assms by (simp_all add: h_def l_def)
  have "(h * 0x400 + l) div 0x400 = h" "(h * 0x400 + l) mod 0x400 = l" using l(1) by simp_all
  moreover have "h * 0x400 + l < 0x100000" using h(1) l(1) by linarith
  ultimately show "is_scalar (0x10000 + (c - 0xD800) * 0x400 + (d - 0xDC00))"
    and "code_units (0x10000 + (c - 0xD800) * 0x400 + (d - 0xDC00)) = [c, d]"
    unfolding h_def[symmetric] l_def[symmetric] using h(2) l(2)
    by (simp_all add: is_scalar_def code_units_def add.assoc)
qed


lemma scalar_values_well_formed:
  "well_formed cs \<Longrightarrow> \<forall>c \<in> set cs. c < 0x10000 \<Longrightarrow>
     (\<forall>x \<in> set (scalar_values cs). is_scalar x) \<and> concat (map code_units (scalar_values cs)) = cs"
proof (induction cs rule: scalar_values.induct)
  case 1
  then show ?case by simp
next
  case (2 c)
  then show ?case by (auto simp: is_scalar_def code_units_def)
next
  case (3 c d ds)
  show ?case
  proof (cases "c < 0xD800 \<or> 0xDFFF < c")
    case True
    with "3.prems" have "well_formed (d # ds)" "\<forall>x \<in> set (d # ds). x < 0x10000" "c < 0x10000" by simp_all
    with "3.IH"(1)[OF True] True show ?thesis
      by (auto simp: is_scalar_def code_units_def)
  next
    case False
    with "3.prems" have lead: "c < 0xDC00" and trail: "0xDC00 \<le> d" "d \<le> 0xDFFF" and wf: "well_formed ds"
      and small: "\<forall>x \<in> set ds. x < 0x10000"
      by simp_all
    from False have c: "0xD800 \<le> c" by simp
    from lead have nl: "\<not> 0xDC00 \<le> c" by simp
    have ih: "(\<forall>x \<in> set (scalar_values ds). is_scalar x)
        \<and> concat (map code_units (scalar_values ds)) = ds"
      using "3.IH"(3)[OF False nl _ wf small] trail by simp
    have sv: "scalar_values (c # d # ds) = (0x10000 + (c - 0xD800) * 0x400 + (d - 0xDC00)) # scalar_values ds"
      using False lead trail by simp
    show ?thesis
      unfolding sv using ih pair_value[OF c lead trail] by simp
  qed
qed

lemma no_bom:
  assumes "is_scalar c" and "c \<noteq> 0xFEFF"
  shows "take 3 (utf8_bytes c @ rest) \<noteq> [0xEF, 0xBB, 0xBF]"
proof -
  define q1 where "q1 = c div 0x40"
  define q2 where "q2 = q1 div 0x40"
  define q3 where "q3 = q2 div 0x40"
  define d0 where "d0 = c mod 0x40"
  define d1 where "d1 = q1 mod 0x40"
  define d2 where "d2 = q2 mod 0x40"
  have c: "c = q1 * 0x40 + d0" and q1: "q1 = q2 * 0x40 + d1" and q2: "q2 = q3 * 0x40 + d2"
    by (simp_all add: q1_def q2_def q3_def d0_def d1_def d2_def)
  have bytes: "utf8_bytes c =
     (if c < 0x80 then [c]
      else if c < 0x800 then [0xC0 + q1, 0x80 + d0]
      else if c < 0x10000 then [0xE0 + q2, 0x80 + d1, 0x80 + d0]
      else [0xF0 + q3, 0x80 + d2, 0x80 + d1, 0x80 + d0])"
    by (simp add: utf8_bytes_def div_4096 div_262144 q1_def q2_def q3_def d0_def d1_def d2_def)
  consider "c < 0x80" | "0x80 \<le> c" "c < 0x800" | "0x800 \<le> c" "c < 0x10000" | "0x10000 \<le> c"
    by linarith
  then show ?thesis
  proof cases
    case 1
    then show ?thesis by (cases rest) (auto simp: bytes)
  next
    case 2
    then have "q1 < 32" using c by linarith
    with 2 show ?thesis by (cases rest) (auto simp: bytes)
  next
    case 3
    have "\<not> (q2 = 15 \<and> d1 = 0x3B \<and> d0 = 0x3F)" using c q1 assms(2) by auto
    with 3 show ?thesis by (auto simp: bytes)
  next
    case 4
    then show ?thesis by (auto simp: bytes)
  qed
qed

lemma skip_bom_encoded:
  assumes "well_formed cs" and "\<forall>c \<in> set cs. c < 0x10000" and "take 1 cs \<noteq> [0xFEFF]"
  shows "skip_bom (concat (map utf8_bytes (scalar_values cs))) = concat (map utf8_bytes (scalar_values cs))"
proof (cases "scalar_values cs")
  case Nil
  then show ?thesis by (simp add: skip_bom_def)
next
  case (Cons x xs)
  from scalar_values_well_formed[OF assms(1,2)] Cons have x: "is_scalar x" by simp
  have "x \<noteq> 0xFEFF"
  proof (cases cs rule: scalar_values.cases)
    case 1
    with Cons show ?thesis by simp
  next
    case (2 c)
    with Cons assms show ?thesis by (auto split: if_splits)
  next
    case (3 c d ds)
    with Cons assms show ?thesis by (auto split: if_splits)
  qed
  with x have "take 3 (utf8_bytes x @ concat (map utf8_bytes xs)) \<noteq> [0xEF, 0xBB, 0xBF]"
    by (rule no_bom)
  then show ?thesis by (simp add: skip_bom_def Cons)
qed

lemma unat_word16_bound: "unat (u :: 16 word) < 0x10000"
  using unsigned_less[of u, where 'a = nat] by simp

lemma text_roundtrip:
  assumes "text_safe s"
  shows "TextDecoder_decode (TextEncoder_encode s) = s"
proof -
  let ?cs = "map unat s"
  let ?xs = "scalar_values ?cs"
  let ?bytes = "concat (map utf8_bytes ?xs)"
  from assms have wf: "well_formed ?cs" and nobom: "take 1 s \<noteq> [0xFEFF]"
    by (simp_all add: text_safe_def)
  have small: "\<forall>c \<in> set ?cs. c < 0x10000" by (auto simp: unat_word16_bound)
  have nobom': "take 1 ?cs \<noteq> [0xFEFF]"
  proof (cases s)
    case Nil
    then show ?thesis by simp
  next
    case (Cons u us)
    with nobom have "u \<noteq> 0xFEFF" by simp
    have "u = 0xFEFF" if "unat u = 0xFEFF"
    proof -
      from that have "(of_nat (unat u) :: 16 word) = of_nat 0xFEFF" by (rule arg_cong)
      then show ?thesis by simp
    qed
    with \<open>u \<noteq> 0xFEFF\<close> have "unat u \<noteq> 0xFEFF" by blast
    with Cons show ?thesis by simp
  qed
  from scalar_values_well_formed[OF wf small]
  have sc: "\<forall>x \<in> set ?xs. is_scalar x" and cu: "concat (map code_units ?xs) = ?cs" by simp_all
  have bound: "\<forall>b \<in> set ?bytes. b < 256"
    using sc utf8_bytes_bound by (auto simp: is_scalar_def)
  have bytes: "map unat (TextEncoder_encode s) = ?bytes"
  proof -
    have "unat (of_nat b :: byte) = b" if "b \<in> set ?bytes" for b
    proof -
      from bound that have "b < 256" by blast
      then show ?thesis by (simp add: unat_of_nat)
    qed
    then have "map (\<lambda>b. unat (of_nat b :: byte)) ?bytes = ?bytes" by (rule map_idI)
    then show ?thesis unfolding TextEncoder_encode_def map_map comp_def .
  qed
  have "TextDecoder_decode (TextEncoder_encode s) = map of_nat (concat (map code_units ?xs))"
    unfolding TextDecoder_decode_def bytes skip_bom_encoded[OF wf small nobom'] utf8_decode_concat[OF sc] ..
  also have "\<dots> = s" by (simp add: cu comp_def)
  finally show ?thesis .
qed

subsection \<open>Examples, evaluated\<close>

lemmas codec_defs =
  TextEncoder_encode_def TextDecoder_decode_def utf8_bytes_def code_units_def skip_bom_def
  utf8_decode.simps js_def

lemma standin_limit: "max_arguments standin = 65535"
  by (simp add: standin_def)

lemma nonce12_length: "length nonce12 = 12"
  by (simp add: nonce12_def)

lemma hi_bytes: "TextEncoder_encode (js ''hi'') = [104, 105]"
  by (simp add: codec_defs)

lemma hi_sealed:
  "subtle_encrypt standin 7 nonce12 [104, 105]
     = Some [111, 110, 38, 38, 38, 38, 38, 38, 38, 38, 38, 38, 38, 38, 38, 38, 38, 38]"
  by (simp add: standin_def standin_tag_def nonce12_def)

lemma hi_opened:
  "subtle_decrypt standin 7 nonce12 [111, 110, 38, 38, 38, 38, 38, 38, 38, 38, 38, 38, 38, 38, 38, 38, 38, 38]
     = Some [104, 105]"
  by (simp add: standin_def standin_tag_def nonce12_def)

lemma hi_transport:
  "encryptMessage standin keyed nonce12 (js ''hi'') =
     [65, 81, 73, 68, 66, 65, 85, 71, 66, 119, 103, 74, 67, 103, 115, 77, 98,
      50, 52, 109, 74, 105, 89, 109, 74, 105, 89, 109, 74, 105, 89, 109, 74,
      105, 89, 109, 74, 105, 89, 109]"
proof -
  have "btoa (fromCharCode (nonce12 @ [111, 110, 38, 38, 38, 38, 38, 38, 38, 38, 38, 38, 38, 38, 38, 38, 38, 38])) =
    Inr [65, 81, 73, 68, 66, 65, 85, 71, 66, 119, 103, 74, 67, 103, 115, 77, 98,
      50, 52, 109, 74, 105, 89, 109, 74, 105, 89, 109, 74, 105, 89, 109, 74,
      105, 89, 109, 74, 105, 89, 109]"
    by (simp add: btoa_def fromCharCode_def nonce12_def b64_char_def)
  then show ?thesis
    by (simp add: encryptMessage_def encryptMessage_try_def keyed_def hi_bytes hi_sealed
        spread_fromCharCode_def standin_limit nonce12_length)
qed

lemma surrogate_bytes: "TextEncoder_encode [0xD800] = [239, 191, 189]"
  by (simp add: codec_defs)

lemma surrogate_sealed:
  "subtle_encrypt standin 7 nonce12 [239, 191, 189]
     = Some [232, 184, 186, 192, 192, 192, 192, 192, 192, 192, 192, 192, 192, 192, 192, 192, 192, 192, 192]"
  by (simp add: standin_def standin_tag_def nonce12_def)

lemma surrogate_opened:
  "subtle_decrypt standin 7 nonce12
     [232, 184, 186, 192, 192, 192, 192, 192, 192, 192, 192, 192, 192, 192, 192, 192, 192, 192, 192]
     = Some [239, 191, 189]"
  by (simp add: standin_def standin_tag_def nonce12_def)

lemma replacement_text: "TextDecoder_decode [239, 191, 189] = [0xFFFD]"
  by (simp add: codec_defs)

subsection \<open>The round trip\<close>

lemma encryptMessage_sealed:
  assumes "sharedKey cm = Some k" and "subtle_encrypt sub k iv (TextEncoder_encode P) = Some ct"
    and "length (iv @ ct) \<le> max_arguments sub"
  shows "btoa (fromCharCode (iv @ ct)) = Inr (encryptMessage sub cm iv P)"
proof -
  from btoa_fromCharCode obtain t where "btoa (fromCharCode (iv @ ct)) = Inr t" by blast
  moreover have "spread_fromCharCode (max_arguments sub) (iv @ ct) = Inr (fromCharCode (iv @ ct))"
    using assms(3) by (simp add: spread_fromCharCode_def)
  ultimately show ?thesis
    using assms(1,2) by (simp add: encryptMessage_def encryptMessage_try_def)
qed

text \<open>
  Beyond the engine's limit the spread call raises, the \<open>catch\<close> of
  \<open>encryptMessage\<close> returns the message, and the text leaves in clear.
\<close>

lemma encryptMessage_beyond_limit:
  assumes "sharedKey cm = Some k" and "subtle_encrypt sub k iv (TextEncoder_encode P) = Some ct"
    and "max_arguments sub < length (iv @ ct)"
  shows "encryptMessage sub cm iv P = P"
  using assms by (simp add: encryptMessage_def encryptMessage_try_def spread_fromCharCode_def)

lemma hi_beyond_limit: "encryptMessage narrow keyed nonce12 (js ''hi'') = js ''hi''"
proof -
  have k: "sharedKey keyed = Some 7" by (simp add: keyed_def)
  have e: "subtle_encrypt narrow 7 nonce12 (TextEncoder_encode (js ''hi''))
      = Some [111, 110, 38, 38, 38, 38, 38, 38, 38, 38, 38, 38, 38, 38, 38, 38, 38, 38]"
    using hi_sealed by (simp add: narrow_def hi_bytes standin_def)
  have l: "max_arguments narrow
      < length (nonce12 @ [111, 110, 38, 38, 38, 38, 38, 38, 38, 38, 38, 38, 38, 38, 38, 38, 38, 38 :: byte])"
    by (simp add: narrow_def nonce12_length)
  from k e l show ?thesis by (rule encryptMessage_beyond_limit)
qed

lemma decryptMessage_of_sealed:
  assumes "sharedKey cm = Some k" and "length iv = 12"
    and "subtle_encrypt sub k iv (TextEncoder_encode P) = Some ct"
    and "subtle_decrypt sub k iv ct = Some d"
    and "length (iv @ ct) \<le> max_arguments sub"
  shows "decryptMessage sub cm (encryptMessage sub cm iv P) = TextDecoder_decode d"
proof -
  have "btoa (fromCharCode (iv @ ct)) = Inr (encryptMessage sub cm iv P)"
    using assms(1,3,5) by (rule encryptMessage_sealed)
  then have "atob (encryptMessage sub cm iv P) = Inr (fromCharCode (iv @ ct))" by (rule atob_btoa)
  then have "decryptMessage_try sub k (encryptMessage sub cm iv P) = Inr (TextDecoder_decode d)"
    using assms(2,4) by (simp add: decryptMessage_try_def charCodes_fromCharCode)
  then show ?thesis using assms(1) by (simp add: decryptMessage_def)
qed

text \<open>
  Claim C2, as stated, fails for a plaintext that the text codec does not
  preserve.  \<open>TextEncoder\<close> writes a surrogate code unit that has no partner
  (here the one-unit string \<open>D800\<close>) as the bytes of U+FFFD, so what
  \<open>decryptMessage\<close> gives back is the replacement character, not the
  plaintext; this happens before the cipher is involved and whatever the
  cipher is.
\<close>

theorem lone_surrogate_not_recovered_counterexample:
  "decryptMessage standin keyed (encryptMessage standin keyed nonce12 [0xD800]) = [0xFFFD]"
proof -
  have k: "sharedKey keyed = Some 7" by (simp add: keyed_def)
  have n: "length nonce12 = 12" by (rule nonce12_length)
  have e: "subtle_encrypt standin 7 nonce12 (TextEncoder_encode [0xD800])
     = Some [232, 184, 186, 192, 192, 192, 192, 192, 192, 192, 192, 192, 192, 192, 192, 192, 192, 192, 192]"
    by (simp add: surrogate_bytes surrogate_sealed)
  have l: "length (nonce12 @ [232, 184, 186, 192, 192, 192, 192, 192, 192, 192, 192, 192, 192, 192, 192, 192,
      192, 192, 192 :: byte]) \<le> max_arguments standin"
    by (simp add: standin_limit nonce12_length)
  from decryptMessage_of_sealed[OF k n e surrogate_opened l]
  show ?thesis by (simp add: replacement_text)
qed

text \<open>
  Claim C2, amended.  Let the symmetric key be initialized, the nonce be twelve
  bytes, and the crypto provider encrypt the UTF-8 bytes of \<open>P\<close> and decrypt
  its own output back to them.  Then for every plaintext \<open>P\<close> that is well-formed
  UTF-16 (no surrogate outside a pair), does not start with U+FEFF, and is
  short enough that nonce and ciphertext together are no more bytes than the
  engine accepts as arguments of one call,
  \<open>decryptMessage(encryptMessage(P)) = P\<close>; the transport string is the base64
  encoding of the nonce followed by the ciphertext, and \<open>atob\<close> recovers exactly
  these bytes, of which \<open>decryptMessage\<close> takes the first twelve as the nonce.
\<close>

theorem message_round_trip:
  assumes "sharedKey cm = Some k" and "length iv = 12"
    and "subtle_encrypt sub k iv (TextEncoder_encode P) = Some ct"
    and "subtle_decrypt sub k iv ct = Some (TextEncoder_encode P)"
    and "text_safe P"
    and "length (iv @ ct) \<le> max_arguments sub"
  shows "decryptMessage sub cm (encryptMessage sub cm iv P) = P
    \<and> btoa (fromCharCode (iv @ ct)) = Inr (encryptMessage sub cm iv P)
    \<and> atob (encryptMessage sub cm iv P) = Inr (fromCharCode (iv @ ct))
    \<and> take 12 (charCodes (fromCharCode (iv @ ct))) = iv
    \<and> drop 12 (charCodes (fromCharCode (iv @ ct))) = ct"
proof -
  let ?t = "encryptMessage sub cm iv P"
  have sealed: "btoa (fromCharCode (iv @ ct)) = Inr ?t"
    using assms(1,3,6) by (rule encryptMessage_sealed)
  then have opened: "atob ?t = Inr (fromCharCode (iv @ ct))" by (rule atob_btoa)
  have "decryptMessage sub cm ?t = TextDecoder_decode (TextEncoder_encode P)"
    using assms(1-4,6) by (rule decryptMessage_of_sealed)
  then have "decryptMessage sub cm ?t = P"
    using text_roundtrip[OF assms(5)] by simp
  with sealed opened assms(2) show ?thesis by (simp add: charCodes_fromCharCode)
qed

theorem message_round_trip_witness:
  "sharedKey keyed = Some 7 \<and> length nonce12 = 12
   \<and> subtle_encrypt standin 7 nonce12 (TextEncoder_encode (js ''hi''))
        = Some [111, 110, 38, 38, 38, 38, 38, 38, 38, 38, 38, 38, 38, 38, 38, 38, 38, 38]
   \<and> subtle_decrypt standin 7 nonce12 [111, 110, 38, 38, 38, 38, 38, 38, 38, 38, 38, 38, 38, 38, 38, 38, 38, 38]
        = Some (TextEncoder_encode (js ''hi''))
   \<and> text_safe (js ''hi'')
   \<and> length (nonce12 @ [111, 110, 38, 38, 38, 38, 38, 38, 38, 38, 38, 38, 38, 38, 38, 38, 38, 38 :: byte])
        \<le> max_arguments standin
   \<and> decryptMessage standin keyed (encryptMessage standin keyed nonce12 (js ''hi'')) = js ''hi''"
proof -
  have h1: "sharedKey keyed = Some 7" by (simp add: keyed_def)
  have h2: "length nonce12 = 12" by (simp add: nonce12_def)
  have h3: "subtle_encrypt standin 7 nonce12 (TextEncoder_encode (js ''hi''))
        = Some [111, 110, 38, 38, 38, 38, 38, 38, 38, 38, 38, 38, 38, 38, 38, 38, 38, 38]"
    by (simp add: hi_bytes hi_sealed)
  have h4: "subtle_decrypt standin 7 nonce12 [111, 110, 38, 38, 38, 38, 38, 38, 38, 38, 38, 38, 38, 38, 38, 38, 38, 38]
        = Some (TextEncoder_encode (js ''hi''))"
    by (simp add: hi_bytes hi_opened)
  have h5: "text_safe (js ''hi'')" by (simp add: text_safe_def js_def)
  have h6: "length (nonce12 @ [111, 110, 38, 38, 38, 38, 38, 38, 38, 38, 38, 38, 38, 38, 38, 38, 38, 38 :: byte])
        \<le> max_arguments standin"
    by (simp add: standin_limit nonce12_length)
  from message_round_trip[OF h1 h2 h3 h4 h5 h6] h1 h2 h3 h4 h5 h6 show ?thesis by simp
qed

subsection \<open>Decryption failures\<close>

text \<open>
  Claim C3, as stated, fails: \<open>decryptMessage\<close> has no failure to signal.  Its
  \<open>catch\<close> returns the argument, so a corrupted transport string comes back as
  if it were the text.  Here bit \<open>0\<close> of the first code unit of a transport
  string is inverted (\<open>A\<close> becomes \<open>@\<close>), \<open>atob\<close> raises, and the result is the
  corrupted string itself.
\<close>

theorem corrupted_transport_is_returned_counterexample:
  "flip_bit 0 0 (encryptMessage standin keyed nonce12 (js ''hi'')) \<noteq> encryptMessage standin keyed nonce12 (js ''hi'')
   \<and> decryptMessage standin keyed (flip_bit 0 0 (encryptMessage standin keyed nonce12 (js ''hi'')))
       = flip_bit 0 0 (encryptMessage standin keyed nonce12 (js ''hi''))"
proof -
  let ?c = "[64, 81, 73, 68, 66, 65, 85, 71, 66, 119, 103, 74, 67, 103, 115, 77, 98,
      50, 52, 109, 74, 105, 89, 109, 74, 105, 89, 109, 74, 105, 89, 109, 74,
      105, 89, 109, 74, 105, 89, 109] :: jsstring"
  have flipped: "flip_bit 0 0 (encryptMessage standin keyed nonce12 (js ''hi'')) = ?c"
    by (simp add: hi_transport flip_bit_def)
  have rejected: "atob ?c = Inl InvalidCharacterError"
    by (simp add: atob_def strip_padding_def ascii_whitespace_def b64_index_def)
  have "decryptMessage standin keyed ?c = ?c"
    by (simp add: decryptMessage_def decryptMessage_try_def keyed_def rejected)
  moreover have "?c \<noteq> encryptMessage standin keyed nonce12 (js ''hi'')"
    by (simp add: hi_transport)
  ultimately show ?thesis by (simp only: flipped) simp
qed

text \<open>
  Claim C3, amended.  With the key initialized, \<open>decryptMessage\<close> never signals
  a failure to its caller.  Whenever its \<open>try\<close> block raises (\<open>atob\<close> rejects a
  malformed transport string, or the crypto provider rejects the ciphertext,
  as on an authentication-tag mismatch) it returns the transport string it was
  given, unchanged; otherwise it returns the decoded text of what the
  provider decrypted.
\<close>

theorem decrypt_failure_returns_input:
  assumes "sharedKey cm = Some k"
  shows "(decryptMessage_try sub k C = Inl e \<longrightarrow> decryptMessage sub cm C = C)
     \<and> (atob C = Inl e \<longrightarrow> decryptMessage sub cm C = C)
     \<and> (atob C = Inr bin \<and> subtle_decrypt sub k (take 12 (charCodes bin)) (drop 12 (charCodes bin)) = None \<longrightarrow>
          decryptMessage sub cm C = C)
     \<and> (atob C = Inr bin \<and> subtle_decrypt sub k (take 12 (charCodes bin)) (drop 12 (charCodes bin)) = Some d \<longrightarrow>
          decryptMessage sub cm C = TextDecoder_decode d)"
  using assms by (simp add: decryptMessage_def decryptMessage_try_def Let_def)

theorem decrypt_failure_returns_input_witness:
  "sharedKey keyed = Some 7
   \<and> atob (js ''@QID'') = Inl InvalidCharacterError
   \<and> decryptMessage standin keyed (js ''@QID'') = js ''@QID''
   \<and> atob (js ''AQID'') = Inr [1, 2, 3]
   \<and> subtle_decrypt failing 7 (take 12 (charCodes [1, 2, 3])) (drop 12 (charCodes [1, 2, 3])) = None
   \<and> decryptMessage failing keyed (js ''AQID'') = js ''AQID''"
proof -
  have h: "sharedKey keyed = Some 7" by (simp add: keyed_def)
  have a1: "atob (js ''@QID'') = Inl InvalidCharacterError"
    by (simp add: atob_def strip_padding_def ascii_whitespace_def b64_index_def js_def)
  have a2: "atob (js ''AQID'') = Inr [1, 2, 3]"
    by (simp add: atob_def strip_padding_def ascii_whitespace_def b64_index_def js_def)
  have r: "subtle_decrypt failing 7 (take 12 (charCodes [1, 2, 3])) (drop 12 (charCodes [1, 2, 3])) = None"
    by (simp add: failing_def)
  from decrypt_failure_returns_input[OF h, of standin "js ''@QID''" InvalidCharacterError]
    decrypt_failure_returns_input[OF h, of failing "js ''AQID''" InvalidCharacterError "[1, 2, 3]"]
    h a1 a2 r
  show ?thesis by simp
qed

subsection \<open>Falling back to plaintext\<close>

text \<open>
  Claim C9.  While the symmetric key is missing (\<open>initializeKeys\<close> has not
  completed, or failed), \<open>encryptMessage(M)\<close> returns \<open>M\<close> itself and
  \<open>decryptMessage\<close> returns its argument; with a key, \<open>encryptMessage(M)\<close> returns
  \<open>M\<close> itself when the provider's \<open>encrypt\<close> throws.  So \<open>sendMessage\<close> with no
  key and an open socket sends the trimmed text of the input field, as it
  is, as the \<open>content\<close> of the \<open>chat_message\<close>.
\<close>

theorem encrypt_falls_back_to_plaintext:
  "(sharedKey cm = None \<longrightarrow> encryptMessage sub cm iv M = M \<and> decryptMessage sub cm C = C)
   \<and> (sharedKey cm = Some k \<and> subtle_encrypt sub k iv (TextEncoder_encode M) = None \<longrightarrow>
        encryptMessage sub cm iv M = M)
   \<and> (sharedKey (cryptoManager app) = None \<and> wss app = Some sock \<and> socket_readyState b sock = 1
        \<and> trim (messageInput_value b) \<noteq> [] \<longrightarrow>
        snd (sendMessage sub iv app b) = [chat_message (trim (messageInput_value b))])"
  by (simp add: encryptMessage_def decryptMessage_def encryptMessage_try_def sendMessage_def Let_def)

theorem encrypt_falls_back_to_plaintext_witness:
  "sharedKey (CryptoManager :: byte crypto_manager) = None
   \<and> encryptMessage standin CryptoManager nonce12 (js ''hi'') = js ''hi''
   \<and> decryptMessage standin CryptoManager (js ''AQID'') = js ''AQID''
   \<and> sharedKey keyed = Some 7 \<and> subtle_encrypt failing 7 nonce12 (TextEncoder_encode (js ''hi'')) = None
   \<and> encryptMessage failing keyed nonce12 (js ''hi'') = js ''hi''
   \<and> trim (messageInput_value (blank\<lparr>messageInput_value := js '' hi ''\<rparr>)) = js ''hi''
   \<and> snd (sendMessage standin nonce12 connected_app (blank\<lparr>messageInput_value := js '' hi ''\<rparr>))
        = [chat_message (js ''hi'')]"
proof -
  let ?b = "blank\<lparr>messageInput_value := js '' hi ''\<rparr>"
  have h1: "sharedKey (CryptoManager :: byte crypto_manager) = None" by (simp add: CryptoManager_def)
  have h2: "sharedKey keyed = Some 7" by (simp add: keyed_def)
  have h3: "subtle_encrypt failing 7 nonce12 (TextEncoder_encode (js ''hi'')) = None" by (simp add: failing_def)
  have t: "trim (messageInput_value ?b) = js ''hi''"
    by (simp add: trim_def js_whitespace_def js_def)
  have h4: "sharedKey (cryptoManager connected_app) = None" "wss connected_app = Some 0"
    "socket_readyState ?b 0 = 1"
    by (simp_all add: connected_app_def CryptoManager_def blank_def)
  have h5: "trim (messageInput_value ?b) \<noteq> []" unfolding t by (simp add: js_def)
  from encrypt_falls_back_to_plaintext[of CryptoManager standin nonce12 "js ''hi''" "js ''AQID''" 7
      connected_app 0 ?b]
    encrypt_falls_back_to_plaintext[of keyed failing nonce12 "js ''hi''" "js ''AQID''" 7 connected_app 0 ?b]
    h1 h2 h3 h4 h5 t
  show ?thesis by simp
qed

section \<open>Properties of the client application\<close>

text \<open>
  Claim C10.  Handling \<open>call_allowed\<close> sends no frame at all to the relay, in
  every state and whatever the platform does: \<open>startCall\<close> is passed \<open>this.ws\<close>,
  which is \<open>undefined\<close>, so the guard before the offer is sent is false.  When
  \<open>getUserMedia\<close> succeeds, the peer connection that \<open>startCall\<close> creates has an
  \<open>onicecandidate\<close> handler closed over that same \<open>undefined\<close>, and such a handler
  sends nothing for any candidate, at any later time.
\<close>

theorem call_allowed_sends_nothing:
  "snd (fst (handle_call_allowed sub stringify env callType app p)) = []
   \<and> (\<forall>stream. getUserMedia env = Inr stream \<longrightarrow>
        peerConnection (snd (fst (fst (handle_call_allowed sub stringify env callType app p))))
          = Some \<lparr>connection = new_connection env, onicecandidate_ws = None\<rparr>)
   \<and> onicecandidate sub stringify iv t q \<lparr>connection = n, onicecandidate_ws = None\<rparr> candidate = []"
proof -
  obtain b vm where p: "p = (b, vm)" by (cases p)
  have try_out: "snd (fst (startCall_try sub stringify env v None (b, vm))) = []" for v
    by (simp add: startCall_try_def send_if_open_def startCallTimer_def Let_def split: sum.splits option.splits)
  have out: "snd (fst (startCall sub stringify env v None (b, vm))) = []" for v
    using try_out[of v]
    by (auto simp: startCall_def handleCallError_def and_then_def deref_def
        split: prod.splits option.splits sum.splits)
  have try_pc: "peerConnection (snd (fst (fst (startCall_try sub stringify env v None (b, vm)))))
          = Some \<lparr>connection = new_connection env, onicecandidate_ws = None\<rparr>"
    if "getUserMedia env = Inr stream" for v stream
    using that
    by (simp add: startCall_try_def send_if_open_def startCallTimer_def Let_def split: sum.splits option.splits)
  have pc: "peerConnection (snd (fst (fst (startCall sub stringify env v None (b, vm)))))
          = Some \<lparr>connection = new_connection env, onicecandidate_ws = None\<rparr>"
    if "getUserMedia env = Inr stream" for v stream
    using try_pc[OF that, of v]
    by (auto simp: startCall_def handleCallError_def and_then_def deref_def
        split: prod.splits option.splits sum.splits)
  have ice: "onicecandidate sub stringify iv t q \<lparr>connection = n, onicecandidate_ws = None\<rparr> candidate = []"
    by (cases q) (simp add: onicecandidate_def send_if_open_def split: option.splits)
  show ?thesis
    using out pc ice by (simp add: handle_call_allowed_def this_ws_def p)
qed

theorem call_allowed_sends_nothing_witness:
  "getUserMedia all_succeed = Inr [0]
   \<and> wss connected_app = Some 0 \<and> socket_readyState in_call 0 = 1
   \<and> snd (fst (handle_call_allowed standin kind_only all_succeed ''video'' connected_app (in_call, talking))) = []
   \<and> peerConnection (snd (fst (fst (handle_call_allowed standin kind_only all_succeed ''video''
         connected_app (in_call, talking)))))
       = Some \<lparr>connection = 0, onicecandidate_ws = None\<rparr>
   \<and> onicecandidate standin kind_only nonce12 5 (in_call, talking) \<lparr>connection = 0, onicecandidate_ws = None\<rparr>
         (Some (js ''candidate'')) = []
   \<and> snd (fst (startCall standin kind_only all_succeed True (wss connected_app) (in_call, talking)))
       = [encrypted_signaling
            (encryptSignalingData standin kind_only (Some 9) nonce12 (Offer (js ''v=0'') True 1000))]"
proof -
  have h: "getUserMedia all_succeed = Inr [0]" "new_connection all_succeed = 0"
    by (simp_all add: all_succeed_def)
  have s: "wss connected_app = Some 0" "socket_readyState in_call 0 = 1"
    by (simp_all add: connected_app_def in_call_def blank_def)
  have sent: "snd (fst (startCall standin kind_only all_succeed True (wss connected_app) (in_call, talking)))
       = [encrypted_signaling
            (encryptSignalingData standin kind_only (Some 9) nonce12 (Offer (js ''v=0'') True 1000))]"
    by (simp add: startCall_def startCall_try_def connected_app_def all_succeed_def in_call_def talking_def
        blank_def VoiceManager_def send_if_open_def startCallTimer_def Let_def)
  from call_allowed_sends_nothing[of standin kind_only all_succeed "''video''" connected_app
      "(in_call, talking)" nonce12 5 "(in_call, talking)" 0 "Some (js ''candidate'')"] h s sent
  show ?thesis by simp
qed

end
